theory Spec2Isabelle
  imports Complex_Main "HOL-Library.List_Lexorder" "HOL-Library.Multiset"
begin

section \<open>Python strings\<close>

text \<open>
  A Python \<open>str\<close> is a sequence of Unicode code points, and \<open>len\<close> counts code
  points. A string is therefore a list of code points (natural numbers); \<open>str\<close> turns
  an ASCII literal into such a list. Lists of code points are ordered lexicographically,
  which is the order Python's \<open>list.sort\<close> uses on strings.
\<close>

type_synonym ustr = "nat list"

definition str :: "string \<Rightarrow> ustr" where
  "str s = map of_char s"

text \<open>
  The code points for which \<open>str.isspace\<close> holds: these are what \<open>str.strip()\<close> and
  \<open>str.split()\<close> without arguments treat as whitespace.
\<close>

definition isspace :: "nat \<Rightarrow> bool" where
  "isspace c \<longleftrightarrow>
     c \<in> {9, 10, 11, 12, 13, 28, 29, 30, 31, 32, 133, 160, 5760, 8232, 8233, 8239, 8287, 12288}
     \<or> (8192 \<le> c \<and> c \<le> 8202)"

text \<open>\<open>s.strip()\<close>: leading and trailing whitespace removed.\<close>

definition strip :: "ustr \<Rightarrow> ustr" where
  "strip s = rev (dropWhile isspace (rev (dropWhile isspace s)))"

text \<open>
  \<open>s.split()\<close>: skip whitespace, take the longest run of non-whitespace as the next
  token, repeat until the string is used up.
\<close>

function split_ws :: "ustr \<Rightarrow> ustr list" where
  "split_ws s =
     (case dropWhile isspace s of
        [] \<Rightarrow> []
      | c # cs \<Rightarrow> takeWhile (\<lambda>x. \<not> isspace x) (c # cs)
                 # split_ws (dropWhile (\<lambda>x. \<not> isspace x) (c # cs)))"
  by pat_completeness auto
termination
proof (relation "measure length")
  show "wf (measure length)" by simp
next
  fix s :: ustr and c cs
  assume a: "dropWhile isspace s = c # cs"
  then have nsp: "\<not> isspace c"
    by (metis hd_dropWhile list.distinct(1) list.sel(1))
  have "length (dropWhile (\<lambda>x. \<not> isspace x) (c # cs)) \<le> length cs"
    using nsp by (simp add: length_dropWhile_le)
  also have "length cs < length (c # cs)" by simp
  also have "length (c # cs) \<le> length s"
    using a by (metis length_dropWhile_le)
  finally show "(dropWhile (\<lambda>x. \<not> isspace x) (c # cs), s) \<in> measure length" by simp
qed

declare split_ws.simps [simp del]

text \<open>
  The number of whitespace-separated tokens of a text, counted without splitting it: a
  token starts at every code point that is not whitespace and that is the first of the
  text or follows whitespace. The flag says whether the code point before was whitespace
  (or the text starts here).
\<close>

fun token_starts :: "bool \<Rightarrow> ustr \<Rightarrow> nat" where
  "token_starts after_space [] = 0"
| "token_starts after_space (c # cs) =
     (if \<not> isspace c \<and> after_space then 1 else 0) + token_starts (isspace c) cs"

text \<open>\<open>str(n)\<close> for a non-negative integer: its decimal digits.\<close>

fun str_of_nat :: "nat \<Rightarrow> ustr" where
  "str_of_nat n = (if n < 10 then [48 + n] else str_of_nat (n div 10) @ [48 + n mod 10])"

declare str_of_nat.simps [simp del]

text \<open>\<open>s.endswith(ext)\<close>.\<close>

definition endswith :: "ustr \<Rightarrow> ustr \<Rightarrow> bool" where
  "endswith s ext \<longleftrightarrow> length ext \<le> length s \<and> drop (length s - length ext) s = ext"

text \<open>\<open>s.startswith(p)\<close>, and \<open>sub in s\<close>.\<close>

definition startswith :: "ustr \<Rightarrow> ustr \<Rightarrow> bool" where
  "startswith s p \<longleftrightarrow> take (length p) s = p"

definition contains :: "ustr \<Rightarrow> ustr \<Rightarrow> bool" where
  "contains s sub \<longleftrightarrow> (\<exists>i \<in> set [0..<Suc (length s)]. take (length sub) (drop i s) = sub)"

text \<open>
  \<open>os.path.join\<close> and \<open>os.path.basename\<close> with the POSIX conventions
  (\<open>posixpath\<close>): the separator is \<open>/\<close> (code point 47); a second component that
  starts with the separator replaces the first; the base name is what follows the last
  separator.
\<close>

definition path_join :: "ustr \<Rightarrow> ustr \<Rightarrow> ustr" where
  "path_join a b =
     (if startswith b [47] then b
      else if a = [] \<or> endswith a [47] then a @ b
      else a @ [47] @ b)"

definition basename :: "ustr \<Rightarrow> ustr" where
  "basename p = rev (takeWhile (\<lambda>c. c \<noteq> 47) (rev p))"

section \<open>Exceptions\<close>

text \<open>
  An exception is kept as the text \<open>str(e)\<close> gives for it, which is all the program
  reads of one. Both handlers of the program are \<open>except Exception\<close>; the values of
  this type stand for the exceptions those handlers catch.
\<close>

datatype exception = Exception (message: ustr)

definition IndexError :: exception where
  "IndexError = Exception (str ''list index out of range'')"

definition AttributeError_strip :: exception where
  "AttributeError_strip =
     Exception ([39] @ str ''NoneType'' @ [39] @ str '' object has no attribute ''
                @ [39] @ str ''strip'' @ [39])"

definition ZeroDivisionError :: exception where
  "ZeroDivisionError = Exception (str ''division by zero'')"

section \<open>Images and the imaging library\<close>

text \<open>
  Of an opened image the program reads the colour mode and the size
  (\<open>img.size[0]\<close> is the width, \<open>img.size[1]\<close> the height).
\<close>

record image =
  mode :: ustr
  width :: int
  height :: int

definition convert :: "image \<Rightarrow> ustr \<Rightarrow> image" where
  "convert img m = img\<lparr>mode := m\<rparr>"

text \<open>
  Modelled from the spec: \<open>Image.thumbnail\<close> belongs to the imaging library, whose
  code is not among the sources. The spec describes it as standard fit-within-box
  thumbnailing that keeps the aspect ratio and does not crop. The model follows the
  library's rule for it, with exact rationals where the library computes in floating
  point: an image that already fits the box is left alone; otherwise the dimension that
  binds is set to the box's and the other one is the floor or the ceiling of the
  proportional value, whichever keeps the aspect ratio closer (the floor on a tie), and
  at least 1. An image of height 0 makes the computation of the aspect ratio divide by
  zero.
\<close>

definition round_aspect :: "rat \<Rightarrow> (int \<Rightarrow> rat) \<Rightarrow> int" where
  "round_aspect number key =
     max (if key \<lfloor>number\<rfloor> \<le> key \<lceil>number\<rceil> then \<lfloor>number\<rfloor> else \<lceil>number\<rceil>) 1"

definition preserve_aspect_ratio ::
  "int \<times> int \<Rightarrow> int \<times> int \<Rightarrow> exception + (int \<times> int) option" where
  "preserve_aspect_ratio sz box =
     (let (w, h) = sz; (x, y) = box in
      if x \<ge> w \<and> y \<ge> h then Inr None
      else if h = 0 then Inl ZeroDivisionError
      else
        let aspect = of_int w / of_int h in
        if of_int x / of_int y \<ge> aspect
        then Inr (Some (round_aspect (of_int y * aspect)
                          (\<lambda>n. \<bar>aspect - of_int n / of_int y\<bar>), y))
        else Inr (Some (x, round_aspect (of_int x / aspect)
                             (\<lambda>n. if n = 0 then 0 else \<bar>aspect - of_int x / of_int n\<bar>))))"

definition thumbnail :: "image \<Rightarrow> int \<times> int \<Rightarrow> exception + image" where
  "thumbnail img box =
     (case preserve_aspect_ratio (width img, height img) box of
        Inl e \<Rightarrow> Inl e
      | Inr None \<Rightarrow> Inr img
      | Inr (Some (x, y)) \<Rightarrow> Inr (img\<lparr>width := x, height := y\<rparr>))"

text \<open>
  The payload: the base64 text of the JPEG encoding of an image. The bytes are not
  modelled; the payload is kept as the image that decoding it gives back, which has the
  mode and the size of the image that was saved.
\<close>

datatype payload = Base64_JPEG (decoded: image)

section \<open>The platform\<close>

text \<open>
  What the program reads from outside itself: the environment variable, the remote
  service, the operating system and the clock. Every call that can raise returns an
  exception or a value. An extraction is numbered by how many extractions the run has
  made before it, so that opening the same file or asking the service about the same
  image may give different answers at different times. The instruction text, the model
  name and the output limit of the request are constants; the service is given the
  payload. A response is the list of its choices, each the content of its message, which
  may be \<open>None\<close>.
\<close>

record platform =
  getenv_key :: "ustr option"
  models_list :: "exception option"
  makedirs_error :: "exception option"
  listdir :: "ustr \<Rightarrow> exception + ustr list"
  open_error :: "ustr \<Rightarrow> exception option"
  str_lower :: "ustr \<Rightarrow> ustr"
  run_stamp :: ustr
  report_date :: ustr
  summary_date :: ustr
  image_open :: "nat \<Rightarrow> ustr \<Rightarrow> exception + image"
  chat_create :: "nat \<Rightarrow> payload \<Rightarrow> exception + ustr option list"

section \<open>Preparing and extracting one image\<close>

definition max_size :: int where
  "max_size = 8192"

definition RGB :: ustr where
  "RGB = str ''RGB''"

definition encode_image_to_base64 :: "platform \<Rightarrow> nat \<Rightarrow> ustr \<Rightarrow> exception + payload" where
  "encode_image_to_base64 pf n image_path =
     (case image_open pf n image_path of
        Inl e \<Rightarrow> Inl e
      | Inr img0 \<Rightarrow>
          let img = (if mode img0 \<noteq> RGB then convert img0 RGB else img0) in
          if width img > max_size \<or> height img > max_size
          then (case thumbnail img (max_size, max_size) of
                  Inl e \<Rightarrow> Inl e
                | Inr img' \<Rightarrow> Inr (Base64_JPEG img'))
          else Inr (Base64_JPEG img))"

text \<open>
  The body of the \<open>try\<close> block of \<open>extract_text_from_image\<close>:
  \<open>response.choices[0]\<close> raises on an empty list, and \<open>.strip()\<close> raises on a
  content that is \<open>None\<close>.
\<close>

definition extract_body :: "platform \<Rightarrow> nat \<Rightarrow> ustr \<Rightarrow> exception + ustr" where
  "extract_body pf n image_path =
     (case encode_image_to_base64 pf n image_path of
        Inl e \<Rightarrow> Inl e
      | Inr base64_image \<Rightarrow>
          (case chat_create pf n base64_image of
             Inl e \<Rightarrow> Inl e
           | Inr choices \<Rightarrow>
               (case choices of
                  [] \<Rightarrow> Inl IndexError
                | content # _ \<Rightarrow>
                    (case content of
                       None \<Rightarrow> Inl AttributeError_strip
                     | Some extracted_text \<Rightarrow> Inr (strip extracted_text)))))"

definition error_text :: "ustr \<Rightarrow> exception \<Rightarrow> ustr" where
  "error_text image_path e = str ''Error processing '' @ image_path @ str '': '' @ message e"

text \<open>
  \<open>extract_text_from_image\<close> with its handler. Like every Python function it
  either raises or returns; the handler turns every exception of the body into a
  returned string.
\<close>

definition extract_text_from_image :: "platform \<Rightarrow> nat \<Rightarrow> ustr \<Rightarrow> exception + ustr" where
  "extract_text_from_image pf n image_path =
     (case extract_body pf n image_path of
        Inr extracted_text \<Rightarrow> Inr extracted_text
      | Inl e \<Rightarrow> Inr (error_text image_path e))"

text \<open>
  The string that the extraction numbered \<open>n\<close> returns for a path: the stripped answer,
  or the error string.
\<close>

definition extracted :: "platform \<Rightarrow> nat \<Rightarrow> ustr \<Rightarrow> ustr" where
  "extracted pf n image_path =
     (case extract_body pf n image_path of
        Inr extracted_text \<Rightarrow> extracted_text
      | Inl e \<Rightarrow> error_text image_path e)"

section \<open>Encoding text\<close>

text \<open>
  The report and the summary are opened with the UTF-8 encoding, and standard output is
  taken to be UTF-8 with strict error handling as well. UTF-8 encodes every code point of a
  Python string but the surrogates (U+D800 to U+DFFF); \<open>os.listdir\<close> gives lone
  surrogates for the bytes of a file name that are not UTF-8. Writing or printing a string
  that holds a surrogate raises \<open>UnicodeEncodeError\<close> and writes nothing of that string;
  the exception names the first run of surrogates of the string. Other failures of an
  output stream (a full disk, a closed stream) are not modelled.
\<close>

definition surrogate :: "nat \<Rightarrow> bool" where
  "surrogate c \<longleftrightarrow> 55296 \<le> c \<and> c \<le> 57343"

definition encodable :: "ustr \<Rightarrow> bool" where
  "encodable s \<longleftrightarrow> (\<forall>c \<in> set s. \<not> surrogate c)"

definition hex_digit :: "nat \<Rightarrow> nat" where
  "hex_digit d = (if d < 10 then 48 + d else 87 + d)"

definition hex4 :: "nat \<Rightarrow> ustr" where
  "hex4 c = [hex_digit (c div 4096 mod 16), hex_digit (c div 256 mod 16),
             hex_digit (c div 16 mod 16), hex_digit (c mod 16)]"

definition UnicodeEncodeError :: "ustr \<Rightarrow> exception" where
  "UnicodeEncodeError s =
     (let start = length (takeWhile (\<lambda>c. \<not> surrogate c) s);
          run = takeWhile surrogate (drop start s)
      in Exception
           ([39] @ str ''utf-8'' @ [39] @ str '' codec can'' @ [39] @ str ''t encode ''
            @ (if length run = 1
               then str ''character '' @ [39, 92] @ str ''u'' @ hex4 (hd run) @ [39]
                    @ str '' in position '' @ str_of_nat start
               else str ''characters in position '' @ str_of_nat start @ str ''-''
                    @ str_of_nat (start + length run - 1))
            @ str '': surrogates not allowed''))"

text \<open>
  A sequence of \<open>f.write\<close> calls on an open file: \<open>buf\<close> is what has been written so
  far; the first string that cannot be encoded raises, and the strings before it stay
  written.
\<close>

fun write_each :: "ustr list \<Rightarrow> ustr \<Rightarrow> exception option \<times> ustr" where
  "write_each [] buf = (None, buf)"
| "write_each (s # ss) buf =
     (if encodable s then write_each ss (buf @ s) else (Some (UnicodeEncodeError s), buf))"

section \<open>The batch run\<close>

text \<open>
  The state the run changes: the file system (the paths it creates, as directories or as
  files with their text), the console (one entry for each \<open>print\<close> that succeeds), and
  the number of extractions made so far. A file opened for writing is created empty; what
  is written to it is collected and stored when the \<open>with\<close> block is left, also when
  an exception leaves the block.
\<close>

datatype node = Directory | File ustr

record world =
  fs :: "ustr \<rightharpoonup> node"
  console :: "ustr list"
  extractions :: nat

definition print :: "ustr \<Rightarrow> world \<Rightarrow> exception + world" where
  "print line w =
     (if encodable line then Inr (w\<lparr>console := console w @ [line]\<rparr>)
      else Inl (UnicodeEncodeError line))"

definition missing_key :: exception where
  "missing_key = Exception (str
     ''OPENAI_API_KEY not found in environment variables. Please check your .env file.'')"

definition connected_notice :: ustr where
  "connected_notice = [10003] @ str '' Successfully connected to OpenAI API''"

text \<open>
  \<open>check_environment\<close>: \<open>not os.getenv(...)\<close> holds for a variable that is unset and
  for one that is set to the empty string. The probe and the notice after it are inside one
  \<open>try\<close> block, whose handler raises a new exception with the message of the caught one.
\<close>

definition check_environment :: "platform \<Rightarrow> world \<Rightarrow> exception + world" where
  "check_environment pf w =
     (if getenv_key pf = None \<or> getenv_key pf = Some [] then Inl missing_key
      else case (case models_list pf of
                   Some e \<Rightarrow> Inl e
                 | None \<Rightarrow> print connected_notice w) of
             Inl e \<Rightarrow> Inl (Exception (str ''Failed to connect to OpenAI API: '' @ message e))
           | Inr w' \<Rightarrow> Inr w')"

definition output_dir :: ustr where
  "output_dir = str ''extracted_text''"

definition images_dir :: ustr where
  "images_dir = str ''images''"

definition image_extensions :: "ustr list" where
  "image_extensions =
     [str ''.jpg'', str ''.jpeg'', str ''.png'', str ''.bmp'', str ''.tiff'', str ''.tif'']"

definition is_image_name :: "platform \<Rightarrow> ustr \<Rightarrow> bool" where
  "is_image_name pf file \<longleftrightarrow>
     (\<exists>ext \<in> set image_extensions. endswith (str_lower pf file) ext)"

text \<open>The loop over the listing that collects \<open>image_files\<close>.\<close>

fun collect :: "platform \<Rightarrow> ustr list \<Rightarrow> ustr list" where
  "collect pf [] = []"
| "collect pf (file # files) =
     (if is_image_name pf file then path_join images_dir file # collect pf files
      else collect pf files)"

definition rule_line :: "nat \<Rightarrow> nat \<Rightarrow> ustr" where
  "rule_line c n = replicate n c"

definition no_images_notice :: ustr where
  "no_images_notice = str ''No image files found in the images directory.''"

text \<open>The six \<open>f.write\<close> calls of the report's header, and the text they write.\<close>

definition report_header_writes :: "platform \<Rightarrow> nat \<Rightarrow> ustr list" where
  "report_header_writes pf n_total =
     [rule_line 61 80 @ [10],
      str ''TEXT EXTRACTION FROM AUTOCLAVE IMAGES (GPT-4 Vision)'' @ [10],
      rule_line 61 80 @ [10],
      str ''Extraction Date: '' @ report_date pf @ [10],
      str ''Total Images Processed: '' @ str_of_nat n_total @ [10],
      rule_line 61 80 @ [10, 10]]"

definition report_header :: "platform \<Rightarrow> nat \<Rightarrow> ustr" where
  "report_header pf n_total = concat (report_header_writes pf n_total)"

text \<open>The four \<open>f.write\<close> calls for one image of the report, and the text they write.\<close>

definition report_block_writes :: "nat \<Rightarrow> ustr \<Rightarrow> ustr \<Rightarrow> ustr list" where
  "report_block_writes i image_path extracted_text =
     [str ''IMAGE '' @ str_of_nat i @ str '': '' @ basename image_path @ [10],
      rule_line 45 60 @ [10],
      extracted_text,
      [10, 10] @ rule_line 61 80 @ [10, 10]]"

definition report_block :: "nat \<Rightarrow> ustr \<Rightarrow> ustr \<Rightarrow> ustr" where
  "report_block i image_path extracted_text =
     concat (report_block_writes i image_path extracted_text)"

definition progress_notice :: "nat \<Rightarrow> nat \<Rightarrow> ustr \<Rightarrow> ustr" where
  "progress_notice i n_total image_path =
     str ''Processing '' @ str_of_nat i @ [47] @ str_of_nat n_total @ str '': ''
     @ basename image_path"

text \<open>
  The first loop of \<open>main\<close>, over \<open>enumerate(image_files, 1)\<close>: \<open>buf\<close> is what has
  been written to the report so far. The loop is left by the first exception: of the
  \<open>print\<close>, of \<open>extract_text_from_image\<close>, or of a \<open>f.write\<close>.
\<close>

fun report_loop ::
  "platform \<Rightarrow> nat \<Rightarrow> nat \<Rightarrow> ustr list \<Rightarrow> ustr \<Rightarrow> world \<Rightarrow> exception option \<times> ustr \<times> world" where
  "report_loop pf n_total i [] buf w = (None, buf, w)"
| "report_loop pf n_total i (image_path # rest) buf w =
     (case print (progress_notice i n_total image_path) w of
        Inl e \<Rightarrow> (Some e, buf, w)
      | Inr w1 \<Rightarrow>
          let w2 = w1\<lparr>extractions := Suc (extractions w1)\<rparr>
          in case extract_text_from_image pf (extractions w1) image_path of
               Inl e \<Rightarrow> (Some e, buf, w2)
             | Inr extracted_text \<Rightarrow>
                 (case write_each (report_block_writes i image_path extracted_text) buf of
                    (Some e, buf') \<Rightarrow> (Some e, buf', w2)
                  | (None, buf') \<Rightarrow> report_loop pf n_total (Suc i) rest buf' w2))"

text \<open>The four \<open>f.write\<close> calls of the summary's header, and the text they write.\<close>

definition summary_header_writes :: "platform \<Rightarrow> nat \<Rightarrow> ustr list" where
  "summary_header_writes pf n_total =
     [str ''EXTRACTION SUMMARY'' @ [10],
      rule_line 61 50 @ [10],
      str ''Date: '' @ summary_date pf @ [10],
      str ''Images processed: '' @ str_of_nat n_total @ [10, 10]]"

definition summary_header :: "platform \<Rightarrow> nat \<Rightarrow> ustr" where
  "summary_header pf n_total = concat (summary_header_writes pf n_total)"

text \<open>The three \<open>f.write\<close> calls for one image of the summary, and the text they write.\<close>

definition summary_entry_writes :: "nat \<Rightarrow> ustr \<Rightarrow> ustr \<Rightarrow> ustr list" where
  "summary_entry_writes i image_path extracted_text =
     (let word_count = length (split_ws extracted_text);
          char_count = length extracted_text
      in [str_of_nat i @ str ''. '' @ basename image_path @ [10],
          str ''   Words: '' @ str_of_nat word_count
            @ str '', Characters: '' @ str_of_nat char_count @ [10],
          str ''   Preview: '' @ take 100 extracted_text @ str ''...'' @ [10, 10]])"

definition summary_entry :: "nat \<Rightarrow> ustr \<Rightarrow> ustr \<Rightarrow> ustr" where
  "summary_entry i image_path extracted_text =
     concat (summary_entry_writes i image_path extracted_text)"

text \<open>The second loop of \<open>main\<close>, which extracts every image again.\<close>

fun summary_loop ::
  "platform \<Rightarrow> nat \<Rightarrow> ustr list \<Rightarrow> ustr \<Rightarrow> world \<Rightarrow> exception option \<times> ustr \<times> world" where
  "summary_loop pf i [] buf w = (None, buf, w)"
| "summary_loop pf i (image_path # rest) buf w =
     (let w1 = w\<lparr>extractions := Suc (extractions w)\<rparr>
      in case extract_text_from_image pf (extractions w) image_path of
           Inl e \<Rightarrow> (Some e, buf, w1)
         | Inr extracted_text \<Rightarrow>
             (case write_each (summary_entry_writes i image_path extracted_text) buf of
                (Some e, buf') \<Rightarrow> (Some e, buf', w1)
              | (None, buf') \<Rightarrow> summary_loop pf (Suc i) rest buf' w1))"

definition report_path :: "platform \<Rightarrow> ustr" where
  "report_path pf =
     path_join output_dir (str ''extracted_text_'' @ run_stamp pf @ str ''.txt'')"

definition summary_path :: "platform \<Rightarrow> ustr" where
  "summary_path pf = path_join output_dir (str ''summary_'' @ run_stamp pf @ str ''.txt'')"

text \<open>
  The two \<open>with\<close> blocks of \<open>main\<close>: the header, then the loop. Each gives the
  exception that left the block, if one did, what was written to the file, and the state.
\<close>

definition write_report ::
  "platform \<Rightarrow> ustr list \<Rightarrow> world \<Rightarrow> exception option \<times> ustr \<times> world" where
  "write_report pf image_files w =
     (case write_each (report_header_writes pf (length image_files)) [] of
        (Some e, buf) \<Rightarrow> (Some e, buf, w)
      | (None, buf) \<Rightarrow> report_loop pf (length image_files) 1 image_files buf w)"

definition write_summary ::
  "platform \<Rightarrow> ustr list \<Rightarrow> world \<Rightarrow> exception option \<times> ustr \<times> world" where
  "write_summary pf image_files w =
     (case write_each (summary_header_writes pf (length image_files)) [] of
        (Some e, buf) \<Rightarrow> (Some e, buf, w)
      | (None, buf) \<Rightarrow> summary_loop pf 1 image_files buf w)"

text \<open>
  The body of the \<open>try\<close> block of \<open>main\<close>. It gives the exception that left it, if
  one did, and the state at that point.
\<close>

definition main_body :: "platform \<Rightarrow> world \<Rightarrow> exception option \<times> world" where
  "main_body pf w0 =
     (case check_environment pf w0 of
        Inl e \<Rightarrow> (Some e, w0)
      | Inr w1 \<Rightarrow>
     (case (if fs w1 output_dir = None
            then (case makedirs_error pf of
                    Some e \<Rightarrow> Inl e
                  | None \<Rightarrow> Inr (w1\<lparr>fs := (fs w1)(output_dir \<mapsto> Directory)\<rparr>))
            else Inr w1) of
        Inl e \<Rightarrow> (Some e, w1)
      | Inr w2 \<Rightarrow>
     (case listdir pf images_dir of
        Inl e \<Rightarrow> (Some e, w2)
      | Inr names \<Rightarrow>
     (if collect pf names = []
      then (case print no_images_notice w2 of
              Inl e \<Rightarrow> (Some e, w2)
            | Inr w' \<Rightarrow> (None, w'))
      else
        let image_files = sort (collect pf names);
            output_file = report_path pf
        in
     (case print (str ''Processing '' @ str_of_nat (length image_files)
                  @ str '' images...'') w2 of
        Inl e \<Rightarrow> (Some e, w2)
      | Inr w2' \<Rightarrow>
     (case print (str ''Output will be saved to: '' @ output_file) w2' of
        Inl e \<Rightarrow> (Some e, w2')
      | Inr w3 \<Rightarrow>
     (case open_error pf output_file of
        Some e \<Rightarrow> (Some e, w3)
      | None \<Rightarrow>
     (case write_report pf image_files (w3\<lparr>fs := (fs w3)(output_file \<mapsto> File [])\<rparr>) of
        (Some e, buf, w4) \<Rightarrow> (Some e, w4\<lparr>fs := (fs w4)(output_file \<mapsto> File buf)\<rparr>)
      | (None, buf, w4) \<Rightarrow>
        let w5 = w4\<lparr>fs := (fs w4)(output_file \<mapsto> File buf)\<rparr>;
            summary_file = summary_path pf
        in
     (case print ([10] @ str ''Text extraction completed!'') w5 of
        Inl e \<Rightarrow> (Some e, w5)
      | Inr w5' \<Rightarrow>
     (case print (str ''Results saved to: '' @ output_file) w5' of
        Inl e \<Rightarrow> (Some e, w5')
      | Inr w6 \<Rightarrow>
     (case open_error pf summary_file of
        Some e \<Rightarrow> (Some e, w6)
      | None \<Rightarrow>
     (case write_summary pf image_files (w6\<lparr>fs := (fs w6)(summary_file \<mapsto> File [])\<rparr>) of
        (Some e, buf, w7) \<Rightarrow> (Some e, w7\<lparr>fs := (fs w7)(summary_file \<mapsto> File buf)\<rparr>)
      | (None, buf, w7) \<Rightarrow>
     (case print (str ''Summary saved to: '' @ summary_file)
             (w7\<lparr>fs := (fs w7)(summary_file \<mapsto> File buf)\<rparr>) of
        Inl e \<Rightarrow> (Some e, w7\<lparr>fs := (fs w7)(summary_file \<mapsto> File buf)\<rparr>)
      | Inr w8 \<Rightarrow> (None, w8))))))))))))))"

text \<open>
  \<open>main\<close> with its handler, which prints the exception that left the body. The notice
  itself may fail to print, and then that exception leaves \<open>main\<close>. \<open>main_run\<close>
  gives the exception that leaves \<open>main\<close>, if one does, and the state \<open>main\<close> leaves;
  \<open>main\<close> is that state.
\<close>

definition main_run :: "platform \<Rightarrow> world \<Rightarrow> exception option \<times> world" where
  "main_run pf w0 =
     (case main_body pf w0 of
        (None, w) \<Rightarrow> (None, w)
      | (Some e, w) \<Rightarrow>
          (case print (str ''An error occurred: '' @ message e) w of
             Inl e' \<Rightarrow> (Some e', w)
           | Inr w' \<Rightarrow> (None, w')))"

definition main :: "platform \<Rightarrow> world \<Rightarrow> world" where
  "main pf w0 = snd (main_run pf w0)"

text \<open>
  The script: the top level of the module constructs the client from the environment
  variable (line 13) before \<open>main\<close> is called. The constructor belongs to the client
  library, whose code is not among the sources: given no key, with none in the
  environment either, it raises. An exception that leaves the top level or \<open>main\<close> ends
  the process with a traceback; nothing is printed on standard output for it.
\<close>

datatype outcome = Exited world | Traceback exception world

definition OpenAI :: "ustr option \<Rightarrow> exception option" where
  "OpenAI api_key =
     (case api_key of
        None \<Rightarrow> Some (Exception (str
          ''The api_key client option must be set either by passing api_key to the client or by setting the OPENAI_API_KEY environment variable''))
      | Some key \<Rightarrow> None)"

definition script :: "platform \<Rightarrow> world \<Rightarrow> outcome" where
  "script pf w0 =
     (case OpenAI (getenv_key pf) of
        Some e \<Rightarrow> Traceback e w0
      | None \<Rightarrow>
          (case main_run pf w0 of
             (None, w) \<Rightarrow> Exited w
           | (Some e, w) \<Rightarrow> Traceback e w))"

section \<open>A concrete platform\<close>

text \<open>
  A platform on which the definitions can be run. Its images directory lists
  \<open>c.bmp\<close>, \<open>notes.txt\<close>, \<open>a.jpg\<close> and \<open>b.png\<close>, in that order. \<open>a.jpg\<close> is a
  greyscale image of 10000 by 5000 pixels that the service answers with the sample text
  between whitespace; \<open>b.png\<close> is a small image that the service answers with a choice
  whose content is \<open>None\<close>; \<open>c.bmp\<close> cannot be decoded. Lower-casing is the ASCII one.
\<close>

definition ascii_lower :: "ustr \<Rightarrow> ustr" where
  "ascii_lower s = map (\<lambda>c. if 65 \<le> c \<and> c \<le> 90 then c + 32 else c) s"

definition sample_text :: ustr where
  "sample_text = str ''H17 247'' @ [176] @ str ''F 16P''"

definition big_image :: image where
  "big_image = \<lparr>mode = str ''L'', width = 10000, height = 5000\<rparr>"

definition small_image :: image where
  "small_image = \<lparr>mode = str ''RGB'', width = 640, height = 480\<rparr>"

definition demo_listing :: "ustr list" where
  "demo_listing = [str ''c.bmp'', str ''notes.txt'', str ''a.jpg'', str ''b.png'']"

definition demo_platform :: platform where
  "demo_platform =
     \<lparr>getenv_key = Some (str ''sk-demo''),
      models_list = None,
      makedirs_error = None,
      listdir = (\<lambda>d. if d = str ''images'' then Inr demo_listing
                     else Inl (Exception (str ''No such file or directory''))),
      open_error = (\<lambda>p. None),
      str_lower = ascii_lower,
      run_stamp = str ''20240101_120000'',
      report_date = str ''2024-01-01 12:00:00'',
      summary_date = str ''2024-01-01 12:00:09'',
      image_open = (\<lambda>n p. if p = str ''images/a.jpg'' then Inr big_image
                           else if p = str ''images/b.png'' then Inr small_image
                           else Inl (Exception (str ''cannot identify image file''))),
      chat_create = (\<lambda>n b. if width (decoded b) = 8192
                            then Inr [Some ([32] @ sample_text @ [10])]
                            else Inr [None])\<rparr>"

definition demo_world :: world where
  "demo_world = \<lparr>fs = Map.empty, console = [], extractions = 0\<rparr>"

text \<open>
  Two variants of the platform: one whose images directory holds no image, and one
  without the credential.
\<close>

definition empty_platform :: platform where
  "empty_platform =
     demo_platform\<lparr>listdir := (\<lambda>d. Inr [str ''notes.txt'', str ''README.md''])\<rparr>"

definition keyless_platform :: platform where
  "keyless_platform = demo_platform\<lparr>getenv_key := None\<rparr>"

text \<open>
  A platform whose images directory holds one file, with a name that is not UTF-8:
  \<open>os.listdir\<close> gives the lone surrogate U+DCE9 for its first byte.
\<close>

definition surrogate_platform :: platform where
  "surrogate_platform = demo_platform\<lparr>listdir := (\<lambda>d. Inr [[56553] @ str ''.jpg''])\<rparr>"

section \<open>Properties of strings\<close>

lemma rev_dropWhile_takeWhile:
  "rev (dropWhile P xs) @ rev (takeWhile P xs) = rev xs"
  by (metis rev_append takeWhile_dropWhile_id)

lemma strip_suffix_space:
  "dropWhile isspace t = strip t @ rev (takeWhile isspace (rev (dropWhile isspace t)))"
  using rev_dropWhile_takeWhile [of isspace "rev (dropWhile isspace t)"]
  by (simp add: strip_def)

lemma strip_decompose:
  "\<exists>a b. t = a @ strip t @ b \<and> (\<forall>c \<in> set a. isspace c) \<and> (\<forall>c \<in> set b. isspace c)"
proof -
  let ?u = "dropWhile isspace t"
  have 1: "t = takeWhile isspace t @ ?u" by simp
  have 2: "?u = strip t @ rev (takeWhile isspace (rev ?u))"
    by (rule strip_suffix_space)
  have 3: "\<forall>c \<in> set (takeWhile isspace t). isspace c"
    by (auto dest: set_takeWhileD)
  have 4: "\<forall>c \<in> set (rev (takeWhile isspace (rev ?u))). isspace c"
    by (auto dest: set_takeWhileD)
  from 1 2 have "t = takeWhile isspace t @ strip t @ rev (takeWhile isspace (rev ?u))"
    by simp
  with 3 4 show ?thesis by blast
qed

lemma strip_ends:
  assumes "strip t \<noteq> []"
  shows "\<not> isspace (hd (strip t))" and "\<not> isspace (last (strip t))"
proof -
  let ?u = "dropWhile isspace t"
  let ?v = "dropWhile isspace (rev ?u)"
  have sv: "strip t = rev ?v" by (simp add: strip_def)
  with assms have vne: "?v \<noteq> []" by simp
  then have "\<not> isspace (hd ?v)" by (rule hd_dropWhile)
  then show "\<not> isspace (last (strip t))" using vne by (simp add: sv last_rev)
  have u: "?u = strip t @ rev (takeWhile isspace (rev ?u))"
    by (rule strip_suffix_space)
  then have une: "?u \<noteq> []" using assms by (metis append_is_Nil_conv)
  have "hd ?u = hd (strip t)" using assms u by (metis hd_append2)
  moreover have "\<not> isspace (hd ?u)" using une by (rule hd_dropWhile)
  ultimately show "\<not> isspace (hd (strip t))" by simp
qed

lemma error_text_startswith: "startswith (error_text p e) (str ''Error processing'')"
  by (simp add: startswith_def error_text_def str_def)

lemma contains_mid: "contains (a @ p @ b) p"
proof -
  have "length a \<in> set [0..<Suc (length (a @ p @ b))]" by simp
  moreover have "take (length p) (drop (length a) (a @ p @ b)) = p" by simp
  ultimately show ?thesis unfolding contains_def by blast
qed

lemma error_text_contains: "contains (error_text p e) p"
  unfolding error_text_def by (rule contains_mid)


lemma token_starts_skip_space:
  "token_starts True (dropWhile isspace s) = token_starts True s"
  by (induction s) simp_all

lemma token_starts_skip_token:
  "token_starts True (dropWhile (\<lambda>x. \<not> isspace x) s) = token_starts False s"
  by (induction s) simp_all

lemma length_split_ws: "length (split_ws s) = token_starts True s"
proof (induction s rule: split_ws.induct)
  case (1 s)
  show ?case
  proof (cases "dropWhile isspace s")
    case Nil
    have "split_ws s = []" by (subst split_ws.simps) (simp only: Nil list.case)
    moreover have "token_starts True s = 0"
      using token_starts_skip_space [of s] Nil by simp
    ultimately show ?thesis by simp
  next
    case (Cons c cs)
    then have nsp: "\<not> isspace c"
      by (metis hd_dropWhile list.distinct(1) list.sel(1))
    have "split_ws s = takeWhile (\<lambda>x. \<not> isspace x) (c # cs)
                 # split_ws (dropWhile (\<lambda>x. \<not> isspace x) (c # cs))"
      by (subst split_ws.simps) (simp only: Cons list.case)
    then have "length (split_ws s)
        = Suc (token_starts True (dropWhile (\<lambda>x. \<not> isspace x) (c # cs)))"
      using "1.IH" [OF Cons] by simp
    also have "\<dots> = Suc (token_starts False (c # cs))"
      by (simp only: token_starts_skip_token)
    also have "\<dots> = token_starts True (c # cs)" using nsp by simp
    also have "\<dots> = token_starts True s"
      using token_starts_skip_space [of s] Cons by simp
    finally show ?thesis .
  qed
qed

lemma endswith_iff: "endswith s ext \<longleftrightarrow> (\<exists>stem. s = stem @ ext)"
proof
  assume "endswith s ext"
  then have "s = take (length s - length ext) s @ ext"
    by (metis append_take_drop_id endswith_def)
  then show "\<exists>stem. s = stem @ ext" ..
next
  assume "\<exists>stem. s = stem @ ext"
  then show "endswith s ext" by (auto simp: endswith_def)
qed

lemma sample_counts:
  "length (split_ws sample_text) = 3" "length sample_text = 13" "take 100 sample_text = sample_text"
  by (simp_all add: sample_text_def str_def isspace_def split_ws.simps)

lemma str_of_nat_small:
  "str_of_nat 1 = str ''1''" "str_of_nat 3 = str ''3''" "str_of_nat 13 = str ''13''"
  "str_of_nat 14 = str ''14''"
  by (simp_all add: str_of_nat.simps str_def)

lemma basename_demo: "basename (str ''images/a.jpg'') = str ''a.jpg''"
  by (simp add: basename_def str_def)

section \<open>Evaluations on the concrete platform\<close>

lemma demo_encode_a:
  "encode_image_to_base64 demo_platform n (str ''images/a.jpg'')
     = Inr (Base64_JPEG \<lparr>mode = str ''RGB'', width = 8192, height = 4096\<rparr>)"
  by (simp add: encode_image_to_base64_def demo_platform_def big_image_def str_def RGB_def
      convert_def max_size_def thumbnail_def preserve_aspect_ratio_def round_aspect_def)

lemma demo_encode_b:
  "encode_image_to_base64 demo_platform n (str ''images/b.png'')
     = Inr (Base64_JPEG small_image)"
  by (simp add: encode_image_to_base64_def demo_platform_def small_image_def str_def RGB_def
      convert_def max_size_def)

lemma demo_encode_c:
  "encode_image_to_base64 demo_platform n (str ''images/c.bmp'')
     = Inl (Exception (str ''cannot identify image file''))"
  by (simp add: encode_image_to_base64_def demo_platform_def str_def)

lemma demo_chat_a:
  "chat_create demo_platform n
     (Base64_JPEG \<lparr>mode = str ''RGB'', width = 8192, height = 4096\<rparr>)
     = Inr [Some ([32] @ sample_text @ [10])]"
  by (simp add: demo_platform_def)

lemma demo_chat_b: "chat_create demo_platform n (Base64_JPEG small_image) = Inr [None]"
  by (simp add: demo_platform_def small_image_def)

lemma strip_sample: "strip ([32] @ sample_text @ [10]) = sample_text"
  by (simp add: strip_def sample_text_def str_def isspace_def)

lemma demo_extract_a:
  "extract_text_from_image demo_platform n (str ''images/a.jpg'') = Inr sample_text"
  by (simp add: extract_text_from_image_def extract_body_def demo_encode_a demo_chat_a
      strip_sample del: append.simps)

lemma demo_extract_b:
  "extract_text_from_image demo_platform n (str ''images/b.png'')
     = Inr (error_text (str ''images/b.png'') AttributeError_strip)"
  by (simp add: extract_text_from_image_def extract_body_def demo_encode_b demo_chat_b)

lemma demo_extract_c:
  "extract_text_from_image demo_platform n (str ''images/c.bmp'')
     = Inr (error_text (str ''images/c.bmp'') (Exception (str ''cannot identify image file'')))"
  by (simp add: extract_text_from_image_def extract_body_def demo_encode_c)

section \<open>Extraction of one image\<close>

text \<open>
  C1. \<open>extract_text_from_image\<close> always returns and never raises. When preparing the
  image fails, when the call to the service fails, or when reading the answer out of the
  response fails (no choice, or a content that is \<open>None\<close>), the string it returns is
  \<open>Error processing\<close>, the path, a colon and the message of the exception; that string
  starts with \<open>Error processing\<close> and contains the path. When nothing fails it returns
  the content of the first choice stripped: the content with a run of whitespace removed at
  each end, so that what is left neither starts nor ends with whitespace.
\<close>

theorem extract_text_from_image_handles_every_failure:
  "(\<exists>text. extract_text_from_image pf n p = Inr text) \<and>
   (\<forall>e. (encode_image_to_base64 pf n p = Inl e
         \<or> (\<exists>b. encode_image_to_base64 pf n p = Inr b \<and> chat_create pf n b = Inl e)
         \<or> (\<exists>b. encode_image_to_base64 pf n p = Inr b \<and> chat_create pf n b = Inr []
                 \<and> e = IndexError)
         \<or> (\<exists>b rest. encode_image_to_base64 pf n p = Inr b
                 \<and> chat_create pf n b = Inr (None # rest) \<and> e = AttributeError_strip))
        \<longrightarrow> extract_text_from_image pf n p
              = Inr (str ''Error processing '' @ p @ str '': '' @ message e)
            \<and> startswith (str ''Error processing '' @ p @ str '': '' @ message e)
                 (str ''Error processing'')
            \<and> contains (str ''Error processing '' @ p @ str '': '' @ message e) p) \<and>
   (\<forall>b answer rest.
        encode_image_to_base64 pf n p = Inr b \<and> chat_create pf n b = Inr (Some answer # rest)
        \<longrightarrow> extract_text_from_image pf n p = Inr (strip answer)
            \<and> (\<exists>before after. answer = before @ strip answer @ after
                  \<and> (\<forall>c \<in> set before. isspace c) \<and> (\<forall>c \<in> set after. isspace c))
            \<and> (strip answer \<noteq> []
                 \<longrightarrow> \<not> isspace (hd (strip answer)) \<and> \<not> isspace (last (strip answer))))"
proof (intro conjI allI impI)
  show "\<exists>text. extract_text_from_image pf n p = Inr text"
    by (simp add: extract_text_from_image_def split: sum.splits)
next
  fix e
  assume "encode_image_to_base64 pf n p = Inl e
         \<or> (\<exists>b. encode_image_to_base64 pf n p = Inr b \<and> chat_create pf n b = Inl e)
         \<or> (\<exists>b. encode_image_to_base64 pf n p = Inr b \<and> chat_create pf n b = Inr []
                 \<and> e = IndexError)
         \<or> (\<exists>b rest. encode_image_to_base64 pf n p = Inr b
                 \<and> chat_create pf n b = Inr (None # rest) \<and> e = AttributeError_strip)"
  then have "extract_body pf n p = Inl e"
    by (auto simp: extract_body_def)
  then show "extract_text_from_image pf n p
              = Inr (str ''Error processing '' @ p @ str '': '' @ message e)"
    by (simp add: extract_text_from_image_def error_text_def)
next
  fix e
  show "startswith (str ''Error processing '' @ p @ str '': '' @ message e)
                 (str ''Error processing'')"
    using error_text_startswith [of p e] by (simp add: error_text_def)
next
  fix e
  show "contains (str ''Error processing '' @ p @ str '': '' @ message e) p"
    using error_text_contains [of p e] by (simp add: error_text_def)
next
  fix b answer rest
  assume "encode_image_to_base64 pf n p = Inr b \<and> chat_create pf n b = Inr (Some answer # rest)"
  then show "extract_text_from_image pf n p = Inr (strip answer)"
    by (simp add: extract_text_from_image_def extract_body_def)
next
  fix answer
  show "\<exists>before after. answer = before @ strip answer @ after
                  \<and> (\<forall>c \<in> set before. isspace c) \<and> (\<forall>c \<in> set after. isspace c)"
    by (rule strip_decompose)
next
  fix answer
  assume "strip answer \<noteq> []"
  then show "\<not> isspace (hd (strip answer))" "\<not> isspace (last (strip answer))"
    by (rule strip_ends)+
qed

theorem extract_text_from_image_handles_every_failure_witness:
  "encode_image_to_base64 demo_platform 0 (str ''images/c.bmp'')
     = Inl (Exception (str ''cannot identify image file''))
   \<and> extract_text_from_image demo_platform 0 (str ''images/c.bmp'')
     = Inr (str ''Error processing images/c.bmp: cannot identify image file'')
   \<and> startswith (str ''Error processing images/c.bmp: cannot identify image file'')
        (str ''Error processing'')
   \<and> contains (str ''Error processing images/c.bmp: cannot identify image file'')
        (str ''images/c.bmp'')
   \<and> chat_create demo_platform 0
        (Base64_JPEG \<lparr>mode = str ''RGB'', width = 8192, height = 4096\<rparr>)
     = Inr [Some ([32] @ sample_text @ [10])]
   \<and> extract_text_from_image demo_platform 0 (str ''images/a.jpg'') = Inr sample_text"
proof -
  note t = extract_text_from_image_handles_every_failure
  have c: "encode_image_to_base64 demo_platform 0 (str ''images/c.bmp'')
             = Inl (Exception (str ''cannot identify image file''))"
    by (rule demo_encode_c)
  from t [of demo_platform 0 "str ''images/c.bmp''"] c
  have "extract_text_from_image demo_platform 0 (str ''images/c.bmp'')
          = Inr (str ''Error processing '' @ str ''images/c.bmp'' @ str '': ''
                 @ message (Exception (str ''cannot identify image file'')))
        \<and> startswith (str ''Error processing '' @ str ''images/c.bmp'' @ str '': ''
                 @ message (Exception (str ''cannot identify image file'')))
             (str ''Error processing'')
        \<and> contains (str ''Error processing '' @ str ''images/c.bmp'' @ str '': ''
                 @ message (Exception (str ''cannot identify image file'')))
             (str ''images/c.bmp'')"
    by blast
  then have 1: "extract_text_from_image demo_platform 0 (str ''images/c.bmp'')
          = Inr (str ''Error processing images/c.bmp: cannot identify image file'')
        \<and> startswith (str ''Error processing images/c.bmp: cannot identify image file'')
             (str ''Error processing'')
        \<and> contains (str ''Error processing images/c.bmp: cannot identify image file'')
             (str ''images/c.bmp'')"
    by (simp add: str_def)
  have a: "encode_image_to_base64 demo_platform 0 (str ''images/a.jpg'')
             = Inr (Base64_JPEG \<lparr>mode = str ''RGB'', width = 8192, height = 4096\<rparr>)
           \<and> chat_create demo_platform 0
                (Base64_JPEG \<lparr>mode = str ''RGB'', width = 8192, height = 4096\<rparr>)
             = Inr (Some ([32] @ sample_text @ [10]) # [])"
    using demo_encode_a demo_chat_a by simp
  from t [of demo_platform 0 "str ''images/a.jpg''"] a
  have "extract_text_from_image demo_platform 0 (str ''images/a.jpg'')
          = Inr (strip ([32] @ sample_text @ [10]))"
    by blast
  then have 2: "extract_text_from_image demo_platform 0 (str ''images/a.jpg'') = Inr sample_text"
    by (simp only: strip_sample)
  from c 1 2 demo_chat_a [of 0] show ?thesis by (intro conjI) simp_all
qed

text \<open>
  C9, as amended. A choice whose content is \<open>None\<close> makes \<open>.strip()\<close> raise inside the
  \<open>try\<close> block; the handler catches it, and \<open>extract_text_from_image\<close> returns the
  error string for the path with the message of that exception. A content that is the
  empty string raises nothing: the function returns the empty string.
\<close>

theorem null_answer_becomes_error_text:
  "encode_image_to_base64 pf n p = Inr b \<Longrightarrow> chat_create pf n b = Inr (answer # rest) \<Longrightarrow>
   (answer = None \<longrightarrow>
      extract_body pf n p = Inl AttributeError_strip
    \<and> extract_text_from_image pf n p
        = Inr (str ''Error processing '' @ p @ str '': '' @ message AttributeError_strip))
   \<and> (answer = Some [] \<longrightarrow>
      extract_body pf n p = Inr [] \<and> extract_text_from_image pf n p = Inr [])"
  by (simp add: extract_text_from_image_def extract_body_def error_text_def strip_def)

theorem null_answer_becomes_error_text_witness:
  "encode_image_to_base64 demo_platform 0 (str ''images/b.png'') = Inr (Base64_JPEG small_image)
   \<and> chat_create demo_platform 0 (Base64_JPEG small_image) = Inr [None]
   \<and> extract_body demo_platform 0 (str ''images/b.png'') = Inl AttributeError_strip
   \<and> extract_text_from_image demo_platform 0 (str ''images/b.png'')
       = Inr (str ''Error processing '' @ str ''images/b.png'' @ str '': ''
              @ message AttributeError_strip)"
  using null_answer_becomes_error_text [OF demo_encode_b [of 0] demo_chat_b [of 0]]
    demo_encode_b [of 0] demo_chat_b [of 0]
  by simp

text \<open>
  The claim C9 as it was stated, that the failure on a null answer leaves the extraction
  step instead of becoming the error string of the image, fails on the concrete platform:
  for \<open>b.png\<close> the service gives a choice whose content is \<open>None\<close>, the body of the
  \<open>try\<close> block raises, and the function returns the error string.
\<close>

theorem null_answer_counterexample:
  "chat_create demo_platform 0 (Base64_JPEG small_image) = Inr [None]
   \<and> encode_image_to_base64 demo_platform 0 (str ''images/b.png'')
       = Inr (Base64_JPEG small_image)
   \<and> extract_body demo_platform 0 (str ''images/b.png'') = Inl AttributeError_strip
   \<and> extract_text_from_image demo_platform 0 (str ''images/b.png'')
       \<noteq> Inl AttributeError_strip
   \<and> extract_text_from_image demo_platform 0 (str ''images/b.png'')
       = Inr (str ''Error processing images/b.png: '' @ message AttributeError_strip)"
proof -
  have 1: "chat_create demo_platform 0 (Base64_JPEG small_image) = Inr [None]"
    by (rule demo_chat_b)
  have 2: "encode_image_to_base64 demo_platform 0 (str ''images/b.png'')
             = Inr (Base64_JPEG small_image)"
    by (rule demo_encode_b)
  have 3: "extract_body demo_platform 0 (str ''images/b.png'') = Inl AttributeError_strip"
    by (simp add: extract_body_def 1 2)
  have 4: "extract_text_from_image demo_platform 0 (str ''images/b.png'')
             = Inr (error_text (str ''images/b.png'') AttributeError_strip)"
    by (rule demo_extract_b)
  have 5: "error_text (str ''images/b.png'') AttributeError_strip
             = str ''Error processing images/b.png: '' @ message AttributeError_strip"
    by (simp add: error_text_def str_def)
  from 1 2 3 4 5 show ?thesis by simp
qed

section \<open>Preparing an image\<close>

lemma round_aspect_bounds:
  fixes q :: rat and m :: int
  assumes "0 < q" and "q \<le> of_int m"
  shows "1 \<le> round_aspect q key" and "round_aspect q key \<le> m"
    and "\<bar>of_int (round_aspect q key) - q\<bar> \<le> 1"
proof -
  have f1: "of_int \<lfloor>q\<rfloor> \<le> q" and f2: "q < of_int \<lfloor>q\<rfloor> + 1" by linarith+
  have c1: "q \<le> of_int \<lceil>q\<rceil>" and c2: "of_int \<lceil>q\<rceil> < q + 1" by linarith+
  have m1: "1 \<le> m" using assms by linarith
  have cm: "\<lceil>q\<rceil> \<le> m" using assms(2) by (simp add: ceiling_le_iff)
  have fm: "\<lfloor>q\<rfloor> \<le> m" using cm by linarith
  have f0: "0 \<le> \<lfloor>q\<rfloor>" using assms(1) by simp
  show "1 \<le> round_aspect q key" by (simp add: round_aspect_def)
  show "round_aspect q key \<le> m" using m1 cm fm by (simp add: round_aspect_def)
  show "\<bar>of_int (round_aspect q key) - q\<bar> \<le> 1"
  proof (cases "key \<lfloor>q\<rfloor> \<le> key \<lceil>q\<rceil>")
    case True
    then have r: "round_aspect q key = max \<lfloor>q\<rfloor> 1" by (simp add: round_aspect_def)
    show ?thesis
    proof (cases "1 \<le> \<lfloor>q\<rfloor>")
      case True
      then have "round_aspect q key = \<lfloor>q\<rfloor>" using r by simp
      then show ?thesis using f1 f2 by simp
    next
      case False
      then have z: "\<lfloor>q\<rfloor> = 0" using f0 by linarith
      then have "round_aspect q key = 1" using r by simp
      moreover have "q < 1" using f2 z by simp
      ultimately show ?thesis using assms(1) by simp
    qed
  next
    case False
    have "1 \<le> \<lceil>q\<rceil>" using assms(1) by (simp add: less_ceiling_iff Suc_le_eq)
    then have "round_aspect q key = \<lceil>q\<rceil>" using False by (simp add: round_aspect_def)
    then show ?thesis using c1 c2 by simp
  qed
qed

lemma scaled_error:
  fixes x m w h :: int
  assumes h: "0 < h" and e: "\<bar>of_int x - of_int m * (of_int w / of_int h)\<bar> \<le> (1::rat)"
  shows "\<bar>x * h - m * w\<bar> \<le> h"
proof -
  let ?d = "of_int x - of_int m * (of_int w / of_int h) :: rat"
  have hr: "(0::rat) < of_int h" using h by simp
  have "\<bar>?d\<bar> * of_int h \<le> 1 * of_int h"
    using e hr by (intro mult_right_mono) simp_all
  moreover have "\<bar>?d\<bar> * of_int h = \<bar>?d * of_int h\<bar>"
    using hr by (simp add: abs_mult)
  moreover have "?d * of_int h = of_int (x * h - m * w)"
    using hr by (simp add: left_diff_distrib)
  ultimately have "\<bar>of_int (x * h - m * w) :: rat\<bar> \<le> of_int h" by simp
  then have "(of_int \<bar>x * h - m * w\<bar> :: rat) \<le> of_int h" by simp
  then show ?thesis by (simp only: of_int_le_iff)
qed

lemma thumbnail_fit:
  fixes w h m :: int
  assumes w: "0 < w" and h: "0 < h" and m: "0 < m" and big: "m < w \<or> m < h"
  shows "\<exists>x y. preserve_aspect_ratio (w, h) (m, m) = Inr (Some (x, y))
          \<and> 1 \<le> x \<and> x \<le> m \<and> 1 \<le> y \<and> y \<le> m \<and> max x y = m
          \<and> \<bar>x * h - y * w\<bar> \<le> max w h"
proof (cases "w \<le> h")
  case True
  define q :: rat where "q = of_int m * (of_int w / of_int h)"
  define x where "x = round_aspect q (\<lambda>n. \<bar>(of_int w / of_int h :: rat) - of_int n / of_int m\<bar>)"
  have a1: "(of_int w / of_int h :: rat) \<le> 1" using True h by simp
  have q0: "0 < q" using w h m by (simp add: q_def)
  have "q \<le> of_int m * 1"
    unfolding q_def using a1 m by (intro mult_left_mono) simp_all
  then have qm: "q \<le> of_int m" by simp
  have pa: "preserve_aspect_ratio (w, h) (m, m) = Inr (Some (x, m))"
  proof -
    have "\<not> (w \<le> m \<and> h \<le> m)" using big by linarith
    moreover have "h \<noteq> 0" using h by simp
    moreover have "(of_int m / of_int m :: rat) = 1" using m by simp
    ultimately show ?thesis
      using a1 by (simp add: preserve_aspect_ratio_def Let_def x_def q_def)
  qed
  have b1: "1 \<le> x" and b2: "x \<le> m" and b3: "\<bar>of_int x - q\<bar> \<le> 1"
    unfolding x_def using round_aspect_bounds [OF q0 qm] by blast+
  have "\<bar>x * h - m * w\<bar> \<le> h"
    using h b3 unfolding q_def by (rule scaled_error)
  then have b4: "\<bar>x * h - m * w\<bar> \<le> max w h" by simp
  have b5: "max x m = m" using b2 by simp
  have "1 \<le> m" and "m \<le> m" using m by simp_all
  with pa b1 b2 b4 b5 show ?thesis by (intro exI conjI) assumption+
next
  case False
  then have wh: "h < w" by simp
  define q :: rat where "q = of_int m / (of_int w / of_int h)"
  define y where "y = round_aspect q
     (\<lambda>n. if n = 0 then 0 else \<bar>(of_int w / of_int h :: rat) - of_int m / of_int n\<bar>)"
  have a1: "1 < (of_int w / of_int h :: rat)" using wh h by simp
  have q': "q = of_int m * (of_int h / of_int w)" by (simp add: q_def)
  have q0: "0 < q" using w h m by (simp add: q_def)
  have "(of_int h / of_int w :: rat) \<le> 1" using wh w by simp
  then have "q \<le> of_int m * 1"
    unfolding q' using m by (intro mult_left_mono) simp_all
  then have qm: "q \<le> of_int m" by simp
  have pa: "preserve_aspect_ratio (w, h) (m, m) = Inr (Some (m, y))"
  proof -
    have "\<not> (w \<le> m \<and> h \<le> m)" using big by linarith
    moreover have "h \<noteq> 0" using h by simp
    moreover have "(of_int m / of_int m :: rat) = 1" using m by simp
    ultimately show ?thesis
      using a1 by (simp add: preserve_aspect_ratio_def Let_def y_def q_def)
  qed
  have b1: "1 \<le> y" and b2: "y \<le> m" and b3: "\<bar>of_int y - q\<bar> \<le> 1"
    unfolding y_def using round_aspect_bounds [OF q0 qm] by blast+
  have "\<bar>y * w - m * h\<bar> \<le> w"
    using w b3 unfolding q' by (rule scaled_error)
  then have b4: "\<bar>m * h - y * w\<bar> \<le> max w h" by simp
  have b5: "max m y = m" using b2 by simp
  have "1 \<le> m" and "m \<le> m" using m by simp_all
  with pa b1 b2 b4 b5 show ?thesis by (intro exI conjI) assumption+
qed

text \<open>
  C2. For an image that opens and has positive dimensions, \<open>encode_image_to_base64\<close>
  returns a payload and does not raise; the image the payload decodes to has both
  dimensions between 1 and 8192. When a dimension of the input exceeds 8192, the larger
  dimension of the output is exactly 8192 and the aspect ratio is kept within rounding:
  the other dimension is within one pixel of its proportional value
  (\<open>|w' * h - h' * w| \<le> max w h\<close>).
\<close>

theorem encode_image_fits_max_size:
  assumes "image_open pf n p = Inr img" and "0 < width img" and "0 < height img"
  shows "\<exists>b. encode_image_to_base64 pf n p = Inr b
          \<and> 1 \<le> width (decoded b) \<and> width (decoded b) \<le> 8192
          \<and> 1 \<le> height (decoded b) \<and> height (decoded b) \<le> 8192
          \<and> (8192 < width img \<or> 8192 < height img \<longrightarrow>
                max (width (decoded b)) (height (decoded b)) = 8192
              \<and> \<bar>width (decoded b) * height img - height (decoded b) * width img\<bar>
                  \<le> max (width img) (height img))"
proof (cases "8192 < width img \<or> 8192 < height img")
  case False
  with assms show ?thesis
    by (simp add: encode_image_to_base64_def convert_def max_size_def)
next
  case True
  from thumbnail_fit [OF assms(2) assms(3) _ True]
  obtain x y
    where pa: "preserve_aspect_ratio (width img, height img) (8192, 8192) = Inr (Some (x, y))"
      and b: "1 \<le> x" "x \<le> 8192" "1 \<le> y" "y \<le> 8192" "max x y = 8192"
             "\<bar>x * height img - y * width img\<bar> \<le> max (width img) (height img)"
    by auto
  let ?img = "if mode img \<noteq> RGB then convert img RGB else img"
  have sz: "width ?img = width img" "height ?img = height img"
    by (simp_all add: convert_def)
  have th: "thumbnail ?img (8192, 8192) = Inr (?img\<lparr>width := x, height := y\<rparr>)"
    using pa by (simp add: thumbnail_def sz)
  have "encode_image_to_base64 pf n p = Inr (Base64_JPEG (?img\<lparr>width := x, height := y\<rparr>))"
    using assms(1) True th by (simp add: encode_image_to_base64_def max_size_def Let_def sz)
  with b show ?thesis by simp
qed

theorem encode_image_fits_max_size_witness:
  "image_open demo_platform 0 (str ''images/a.jpg'') = Inr big_image
   \<and> 0 < width big_image \<and> 0 < height big_image
   \<and> width big_image = 10000 \<and> height big_image = 5000
   \<and> (\<exists>b. encode_image_to_base64 demo_platform 0 (str ''images/a.jpg'') = Inr b
          \<and> 1 \<le> width (decoded b) \<and> width (decoded b) \<le> 8192
          \<and> 1 \<le> height (decoded b) \<and> height (decoded b) \<le> 8192
          \<and> (8192 < width big_image \<or> 8192 < height big_image \<longrightarrow>
                max (width (decoded b)) (height (decoded b)) = 8192
              \<and> \<bar>width (decoded b) * height big_image
                  - height (decoded b) * width big_image\<bar>
                  \<le> max (width big_image) (height big_image)))
   \<and> (\<exists>b. encode_image_to_base64 demo_platform 0 (str ''images/a.jpg'') = Inr b
          \<and> width (decoded b) = 8192 \<and> height (decoded b) = 4096)"
proof -
  have h1: "image_open demo_platform 0 (str ''images/a.jpg'') = Inr big_image"
    by (simp add: demo_platform_def str_def)
  have h2: "0 < width big_image" and h3: "0 < height big_image"
    and h4: "width big_image = 10000" and h5: "height big_image = 5000"
    by (simp_all add: big_image_def)
  note t = encode_image_fits_max_size [OF h1 h2 h3]
  have c: "\<exists>b. encode_image_to_base64 demo_platform 0 (str ''images/a.jpg'') = Inr b
          \<and> width (decoded b) = 8192 \<and> height (decoded b) = 4096"
    by (simp add: demo_encode_a)
  from h1 h2 h3 h4 h5 t c show ?thesis by (intro conjI)
qed

text \<open>
  C8. For an image that opens with both dimensions at most 8192, the payload decodes to
  an image of exactly the input's dimensions: no thumbnail is taken.
\<close>

theorem small_image_keeps_size:
  "image_open pf n p = Inr img \<Longrightarrow> width img \<le> 8192 \<Longrightarrow> height img \<le> 8192 \<Longrightarrow>
   \<exists>b. encode_image_to_base64 pf n p = Inr b
     \<and> width (decoded b) = width img \<and> height (decoded b) = height img"
  by (simp add: encode_image_to_base64_def convert_def max_size_def)

theorem small_image_keeps_size_witness:
  "image_open demo_platform 0 (str ''images/b.png'') = Inr small_image
   \<and> width small_image \<le> 8192 \<and> height small_image \<le> 8192
   \<and> (\<exists>b. encode_image_to_base64 demo_platform 0 (str ''images/b.png'') = Inr b
     \<and> width (decoded b) = width small_image \<and> height (decoded b) = height small_image)"
proof -
  have h1: "image_open demo_platform 0 (str ''images/b.png'') = Inr small_image"
    by (simp add: demo_platform_def str_def)
  have h2: "width small_image \<le> 8192" by (simp add: small_image_def)
  have h3: "height small_image \<le> 8192" by (simp add: small_image_def)
  from small_image_keeps_size [OF h1 h2 h3] h1 h2 h3 show ?thesis by (intro conjI)
qed

section \<open>Properties of the batch run\<close>

subsection \<open>Encoding\<close>

lemma encodable_Nil: "encodable []"
  by (simp add: encodable_def)

lemma encodable_append: "encodable (a @ b) \<longleftrightarrow> encodable a \<and> encodable b"
  by (auto simp: encodable_def)

lemma encodable_Cons: "encodable (c # s) \<longleftrightarrow> \<not> surrogate c \<and> encodable s"
  by (simp add: encodable_def)

lemma encodable_str: "encodable (str s)"
proof -
  have "\<not> surrogate (of_char c)" for c :: char
  proof -
    have "(of_char c :: nat) < 256" by (rule nat_of_char_less_256)
    then show ?thesis unfolding surrogate_def by linarith
  qed
  then show ?thesis by (simp add: encodable_def str_def)
qed

lemma encodable_str_of_nat: "encodable (str_of_nat n)"
proof (induction n rule: str_of_nat.induct)
  case (1 n)
  show ?case
  proof (cases "n < 10")
    case True
    then show ?thesis
      by (subst str_of_nat.simps) (simp add: encodable_def surrogate_def)
  next
    case False
    have "n mod 10 < 10" by simp
    then have "\<not> surrogate (48 + n mod 10)" by (simp add: surrogate_def)
    with False "1.IH" show ?thesis
      by (subst str_of_nat.simps) (simp add: encodable_append encodable_Cons encodable_Nil)
  qed
qed

lemma encodable_rule_line: "c < 55296 \<Longrightarrow> encodable (rule_line c n)"
  by (simp add: encodable_def rule_line_def surrogate_def)

lemma encodable_newline: "encodable [10]" "encodable [10, 10]" "encodable [47]"
  by (simp_all add: encodable_def surrogate_def)

lemma encodable_basename: "encodable p \<Longrightarrow> encodable (basename p)"
  by (auto simp: encodable_def basename_def dest: set_takeWhileD)

lemma encodable_take: "encodable t \<Longrightarrow> encodable (take n t)"
  by (auto simp: encodable_def dest: in_set_takeD)

lemma print_ok: "encodable line \<Longrightarrow> print line w = Inr (w\<lparr>console := console w @ [line]\<rparr>)"
  by (simp add: print_def)

lemma write_each_ok:
  "\<forall>s \<in> set ss. encodable s \<Longrightarrow> write_each ss buf = (None, buf @ concat ss)"
  by (induction ss arbitrary: buf) simp_all

lemma encodable_progress_notice: "encodable p \<Longrightarrow> encodable (progress_notice i n p)"
  by (simp add: progress_notice_def encodable_append encodable_Cons encodable_Nil surrogate_def encodable_str encodable_str_of_nat
      encodable_newline encodable_basename)

lemma encodable_report_block_writes:
  "encodable p \<Longrightarrow> encodable t \<Longrightarrow> \<forall>s \<in> set (report_block_writes i p t). encodable s"
  by (simp add: report_block_writes_def encodable_append encodable_Cons encodable_Nil surrogate_def encodable_str encodable_str_of_nat
      encodable_newline encodable_basename encodable_rule_line)

lemma encodable_summary_entry_writes:
  "encodable p \<Longrightarrow> encodable t \<Longrightarrow> \<forall>s \<in> set (summary_entry_writes i p t). encodable s"
  by (simp add: summary_entry_writes_def Let_def encodable_append encodable_Cons encodable_Nil surrogate_def encodable_str
      encodable_str_of_nat encodable_newline encodable_basename encodable_take)

lemma encodable_report_header_writes:
  "encodable (report_date pf) \<Longrightarrow> \<forall>s \<in> set (report_header_writes pf n). encodable s"
  by (simp add: report_header_writes_def encodable_append encodable_Cons encodable_Nil surrogate_def encodable_str encodable_str_of_nat
      encodable_newline encodable_rule_line)

lemma encodable_summary_header_writes:
  "encodable (summary_date pf) \<Longrightarrow> \<forall>s \<in> set (summary_header_writes pf n). encodable s"
  by (simp add: summary_header_writes_def encodable_append encodable_Cons encodable_Nil surrogate_def encodable_str encodable_str_of_nat
      encodable_newline encodable_rule_line)

lemma write_block_ok:
  "encodable p \<Longrightarrow> encodable t \<Longrightarrow>
   write_each (report_block_writes i p t) buf = (None, buf @ report_block i p t)"
  by (simp add: write_each_ok [OF encodable_report_block_writes] report_block_def)

lemma write_entry_ok:
  "encodable p \<Longrightarrow> encodable t \<Longrightarrow>
   write_each (summary_entry_writes i p t) buf = (None, buf @ summary_entry i p t)"
  by (simp add: write_each_ok [OF encodable_summary_entry_writes] summary_entry_def)

subsection \<open>The loops and the paths\<close>

lemma extract_is_extracted:
  "extract_text_from_image pf n p = Inr (extracted pf n p)"
  by (simp add: extract_text_from_image_def extracted_def split: sum.splits)

lemma report_loop_closed:
  assumes "\<forall>p \<in> set ps. encodable p"
    and "\<forall>k. \<forall>p \<in> set ps. encodable (extracted pf k p)"
  shows "report_loop pf N i ps buf w =
     (None,
      buf @ concat (map (\<lambda>(k, p). report_block (i + k) p (extracted pf (extractions w + k) p))
                      (enumerate 0 ps)),
      w\<lparr>console := console w @ map (\<lambda>(k, p). progress_notice (i + k) N p) (enumerate 0 ps),
        extractions := extractions w + length ps\<rparr>)"
  using assms
proof (induction ps arbitrary: i buf w)
  case Nil
  show ?case by simp
next
  case (Cons p ps)
  have p: "encodable p" and t: "encodable (extracted pf (extractions w) p)"
    using Cons.prems by simp_all
  have ih: "report_loop pf N (Suc i) ps buf' w' =
     (None,
      buf' @ concat (map (\<lambda>(k, p). report_block (Suc i + k) p (extracted pf (extractions w' + k) p))
                      (enumerate 0 ps)),
      w'\<lparr>console := console w' @ map (\<lambda>(k, p). progress_notice (Suc i + k) N p) (enumerate 0 ps),
        extractions := extractions w' + length ps\<rparr>)" for buf' w'
    using Cons.prems by (intro Cons.IH) simp_all
  show ?case
    by (simp add: Let_def print_ok [OF encodable_progress_notice [OF p]]
        extract_is_extracted write_block_ok [OF p t]
        ih enumerate_Suc_eq o_def case_prod_unfold)
qed

lemma summary_loop_closed:
  assumes "\<forall>p \<in> set ps. encodable p"
    and "\<forall>k. \<forall>p \<in> set ps. encodable (extracted pf k p)"
  shows "summary_loop pf i ps buf w =
     (None,
      buf @ concat (map (\<lambda>(k, p). summary_entry (i + k) p (extracted pf (extractions w + k) p))
                      (enumerate 0 ps)),
      w\<lparr>extractions := extractions w + length ps\<rparr>)"
  using assms
proof (induction ps arbitrary: i buf w)
  case Nil
  show ?case by simp
next
  case (Cons p ps)
  have p: "encodable p" and t: "encodable (extracted pf (extractions w) p)"
    using Cons.prems by simp_all
  have ih: "summary_loop pf (Suc i) ps buf' w' =
     (None,
      buf' @ concat (map (\<lambda>(k, p). summary_entry (Suc i + k) p (extracted pf (extractions w' + k) p))
                      (enumerate 0 ps)),
      w'\<lparr>extractions := extractions w' + length ps\<rparr>)" for buf' w'
    using Cons.prems by (intro Cons.IH) simp_all
  show ?case
    by (simp add: Let_def extract_is_extracted write_entry_ok [OF p t]
        ih enumerate_Suc_eq o_def case_prod_unfold)
qed

lemma report_loop_fs: "fs (snd (snd (report_loop pf N i ps buf w))) = fs w"
  by (induction ps arbitrary: i buf w)
     (auto simp: print_def Let_def extract_is_extracted split: prod.splits option.splits)

lemma summary_loop_fs: "fs (snd (snd (summary_loop pf i ps buf w))) = fs w"
  by (induction ps arbitrary: i buf w)
     (auto simp: Let_def extract_is_extracted split: prod.splits option.splits)

lemma write_report_fs: "fs (snd (snd (write_report pf ps w))) = fs w"
  by (simp add: write_report_def report_loop_fs split: prod.splits option.splits)

lemma write_summary_fs: "fs (snd (snd (write_summary pf ps w))) = fs w"
  by (simp add: write_summary_def summary_loop_fs split: prod.splits option.splits)

lemma path_join_images:
  "path_join images_dir b = (if startswith b [47] then b else images_dir @ [47] @ b)"
  by (simp add: path_join_def images_dir_def endswith_def str_def)

lemma path_join_images_inj:
  assumes "path_join images_dir a = path_join images_dir b"
  shows "a = b"
proof -
  have 1: "\<not> startswith (images_dir @ [47] @ c) [47]" for c
    by (simp add: startswith_def images_dir_def str_def)
  show ?thesis
  proof (cases "startswith a [47]")
    case True
    show ?thesis
    proof (cases "startswith b [47]")
      case True
      with \<open>startswith a [47]\<close> assms show ?thesis by (simp add: path_join_images)
    next
      case False
      with True assms have "a = images_dir @ [47] @ b" by (simp add: path_join_images)
      with True 1 [of b] show ?thesis by simp
    qed
  next
    case False
    show ?thesis
    proof (cases "startswith b [47]")
      case True
      with False assms have "b = images_dir @ [47] @ a" by (simp add: path_join_images)
      with True 1 [of a] show ?thesis by simp
    next
      case False
      with \<open>\<not> startswith a [47]\<close> assms show ?thesis by (simp add: path_join_images)
    qed
  qed
qed

lemma report_path_eq:
  "report_path pf = str ''extracted_text/extracted_text_'' @ run_stamp pf @ str ''.txt''"
  by (simp add: report_path_def path_join_def output_dir_def endswith_def startswith_def str_def)

lemma summary_path_eq:
  "summary_path pf = str ''extracted_text/summary_'' @ run_stamp pf @ str ''.txt''"
  by (simp add: summary_path_def path_join_def output_dir_def endswith_def startswith_def str_def)

lemma report_path_neq_summary_path: "report_path pf \<noteq> summary_path pf"
  by (simp add: report_path_eq summary_path_eq str_def)

lemma report_path_neq_output_dir: "report_path pf \<noteq> output_dir"
  by (simp add: report_path_eq output_dir_def str_def)

lemma summary_path_neq_output_dir: "summary_path pf \<noteq> output_dir"
  by (simp add: summary_path_eq output_dir_def str_def)

lemma is_image_name_iff:
  "is_image_name pf file \<longleftrightarrow>
     (\<exists>ext \<in> {str ''.jpg'', str ''.jpeg'', str ''.png'', str ''.bmp'', str ''.tiff'', str ''.tif''}.
        \<exists>stem. str_lower pf file = stem @ ext)"
  by (simp add: is_image_name_def image_extensions_def endswith_iff)

lemma collect_eq: "collect pf names = map (path_join images_dir) (filter (is_image_name pf) names)"
  by (induction names) simp_all

lemma collect_none: "\<forall>f \<in> set names. \<not> is_image_name pf f \<Longrightarrow> collect pf names = []"
  by (simp add: collect_eq)

lemma mset_collect: "mset names' = mset names \<Longrightarrow> mset (collect pf names') = mset (collect pf names)"
  unfolding collect_eq by (metis mset_filter mset_map)

lemma encodable_report_path: "encodable (run_stamp pf) \<Longrightarrow> encodable (report_path pf)"
  by (simp add: report_path_eq encodable_append encodable_str)

lemma encodable_summary_path: "encodable (run_stamp pf) \<Longrightarrow> encodable (summary_path pf)"
  by (simp add: summary_path_eq encodable_append encodable_str)

lemma encodable_notices:
  "encodable connected_notice" "encodable no_images_notice"
  "encodable (str ''An error occurred: '' @ message missing_key)"
  by (simp_all add: connected_notice_def no_images_notice_def missing_key_def
      encodable_append encodable_Cons encodable_Nil surrogate_def encodable_str)

subsection \<open>The paths through \<open>main\<close>\<close>

lemma check_environment_ok:
  "getenv_key pf = Some api_key \<Longrightarrow> api_key \<noteq> [] \<Longrightarrow> models_list pf = None \<Longrightarrow>
   check_environment pf w = Inr (w\<lparr>console := console w @ [connected_notice]\<rparr>)"
  by (simp add: check_environment_def print_ok encodable_notices)

lemma check_environment_missing:
  "getenv_key pf = None \<or> getenv_key pf = Some [] \<Longrightarrow>
   check_environment pf w = Inl missing_key"
  by (auto simp: check_environment_def)

lemma main_missing_credential:
  "getenv_key pf = None \<or> getenv_key pf = Some [] \<Longrightarrow>
   main_body pf w = (Some missing_key, w)
   \<and> main_run pf w = (None, w\<lparr>console := console w @
        [str ''An error occurred: OPENAI_API_KEY not found in environment variables. Please check your .env file.'']\<rparr>)"
proof -
  assume a: "getenv_key pf = None \<or> getenv_key pf = Some []"
  have b: "main_body pf w = (Some missing_key, w)"
    by (simp add: main_body_def check_environment_missing [OF a])
  have "main_run pf w = (None, w\<lparr>console := console w @
        [str ''An error occurred: '' @ message missing_key]\<rparr>)"
    by (simp add: main_run_def b print_ok encodable_notices)
  then show ?thesis using b by (simp add: missing_key_def str_def)
qed

lemma main_body_no_images:
  assumes "getenv_key pf = Some api_key" and "api_key \<noteq> []" and "models_list pf = None"
    and "fs w output_dir \<noteq> None \<or> makedirs_error pf = None"
    and "listdir pf images_dir = Inr names" and "collect pf names = []"
  shows "main_body pf w =
     (None, w\<lparr>fs := (if fs w output_dir = None then (fs w)(output_dir \<mapsto> Directory) else fs w),
             console := console w @ [connected_notice, no_images_notice]\<rparr>)"
  using assms
  by (auto simp: main_body_def check_environment_ok print_ok encodable_notices)

lemma write_report_closed:
  assumes "encodable (report_date pf)" and "\<forall>p \<in> set ps. encodable p"
    and "\<forall>k. \<forall>p \<in> set ps. encodable (extracted pf k p)"
  shows "write_report pf ps w =
     (None,
      report_header pf (length ps)
      @ concat (map (\<lambda>(k, p). report_block (Suc k) p (extracted pf (extractions w + k) p))
                      (enumerate 0 ps)),
      w\<lparr>console := console w
           @ map (\<lambda>(k, p). progress_notice (Suc k) (length ps) p) (enumerate 0 ps),
        extractions := extractions w + length ps\<rparr>)"
  by (simp add: write_report_def write_each_ok [OF encodable_report_header_writes [OF assms(1)]]
      report_loop_closed [OF assms(2) assms(3)] report_header_def)

lemma write_summary_closed:
  assumes "encodable (summary_date pf)" and "\<forall>p \<in> set ps. encodable p"
    and "\<forall>k. \<forall>p \<in> set ps. encodable (extracted pf k p)"
  shows "write_summary pf ps w =
     (None,
      summary_header pf (length ps)
      @ concat (map (\<lambda>(k, p). summary_entry (Suc k) p (extracted pf (extractions w + k) p))
                      (enumerate 0 ps)),
      w\<lparr>extractions := extractions w + length ps\<rparr>)"
  by (simp add: write_summary_def write_each_ok [OF encodable_summary_header_writes [OF assms(1)]]
      summary_loop_closed [OF assms(2) assms(3)] summary_header_def)

lemma main_body_complete:
  assumes "getenv_key pf = Some api_key" and "api_key \<noteq> []" and "models_list pf = None"
    and "fs w output_dir \<noteq> None \<or> makedirs_error pf = None"
    and "listdir pf images_dir = Inr names" and "collect pf names \<noteq> []"
    and "open_error pf (report_path pf) = None" and "open_error pf (summary_path pf) = None"
    and "encodable (run_stamp pf)" and "encodable (report_date pf)"
    and "encodable (summary_date pf)"
    and "\<forall>p \<in> set (collect pf names). encodable p"
    and "\<forall>k. \<forall>p \<in> set (collect pf names). encodable (extracted pf k p)"
  shows "fst (main_body pf w) = None"
    and "fs (snd (main_body pf w)) =
      (if fs w output_dir = None then (fs w)(output_dir \<mapsto> Directory) else fs w)
      (report_path pf \<mapsto> File (report_header pf (length (collect pf names))
          @ concat (map (\<lambda>(k, p). report_block (Suc k) p (extracted pf (extractions w + k) p))
                      (enumerate 0 (sort (collect pf names))))),
       summary_path pf \<mapsto> File (summary_header pf (length (collect pf names))
          @ concat (map (\<lambda>(k, p). summary_entry (Suc k) p
                         (extracted pf (extractions w + length (collect pf names) + k) p))
                      (enumerate 0 (sort (collect pf names))))))"
    and "extractions (snd (main_body pf w)) = extractions w + 2 * length (collect pf names)"
proof -
  have sp: "\<forall>p \<in> set (sort (collect pf names)). encodable p"
    using assms(12) by simp
  have st: "\<forall>k. \<forall>p \<in> set (sort (collect pf names)). encodable (extracted pf k p)"
    using assms(13) by simp
  note wr = write_report_closed [OF assms(10) sp st]
  note ws = write_summary_closed [OF assms(11) sp st]
  have e1: "encodable (str ''Processing '' @ str_of_nat n @ str '' images...'')" for n
    by (simp add: encodable_append encodable_str encodable_str_of_nat)
  have e2: "encodable (str ''Output will be saved to: '' @ report_path pf)"
    "encodable (str ''Results saved to: '' @ report_path pf)"
    "encodable (str ''Summary saved to: '' @ summary_path pf)"
    "encodable (10 # str ''Text extraction completed!'')"
    using assms(9)
    by (simp_all add: encodable_append encodable_Cons surrogate_def encodable_str
        encodable_report_path encodable_summary_path)
  have mb: "main_body pf w =
     (None,
      w\<lparr>fs := (if fs w output_dir = None then (fs w)(output_dir \<mapsto> Directory) else fs w)
      (report_path pf \<mapsto> File (report_header pf (length (collect pf names))
          @ concat (map (\<lambda>(k, p). report_block (Suc k) p (extracted pf (extractions w + k) p))
                      (enumerate 0 (sort (collect pf names))))),
       summary_path pf \<mapsto> File (summary_header pf (length (collect pf names))
          @ concat (map (\<lambda>(k, p). summary_entry (Suc k) p
                         (extracted pf (extractions w + length (collect pf names) + k) p))
                      (enumerate 0 (sort (collect pf names)))))),
        console := console w
          @ [connected_notice,
             str ''Processing '' @ str_of_nat (length (collect pf names)) @ str '' images...'',
             str ''Output will be saved to: '' @ report_path pf]
          @ map (\<lambda>(k, p). progress_notice (Suc k) (length (collect pf names)) p)
              (enumerate 0 (sort (collect pf names)))
          @ [10 # str ''Text extraction completed!'',
             str ''Results saved to: '' @ report_path pf,
             str ''Summary saved to: '' @ summary_path pf],
        extractions := extractions w + 2 * length (collect pf names)\<rparr>)"
  proof (cases "fs w output_dir = None")
    case True
    then have "makedirs_error pf = None" using assms(4) by simp
    with True assms(1-3,5-8) show ?thesis
      by (simp add: main_body_def check_environment_ok Let_def wr ws print_ok e1 e2)
  next
    case False
    then obtain y where "fs w output_dir = Some y" by auto
    with assms(1-3,5-8) show ?thesis
      by (simp add: main_body_def check_environment_ok Let_def wr ws print_ok e1 e2)
  qed
  show "fst (main_body pf w) = None" by (simp add: mb)
  show "fs (snd (main_body pf w)) =
      (if fs w output_dir = None then (fs w)(output_dir \<mapsto> Directory) else fs w)
      (report_path pf \<mapsto> File (report_header pf (length (collect pf names))
          @ concat (map (\<lambda>(k, p). report_block (Suc k) p (extracted pf (extractions w + k) p))
                      (enumerate 0 (sort (collect pf names))))),
       summary_path pf \<mapsto> File (summary_header pf (length (collect pf names))
          @ concat (map (\<lambda>(k, p). summary_entry (Suc k) p
                         (extracted pf (extractions w + length (collect pf names) + k) p))
                      (enumerate 0 (sort (collect pf names))))))"
    by (simp add: mb)
  show "extractions (snd (main_body pf w)) = extractions w + 2 * length (collect pf names)"
    by (simp add: mb)
qed

lemma main_when_complete: "fst (main_body pf w) = None \<Longrightarrow> main pf w = snd (main_body pf w)"
  by (cases "main_body pf w") (simp add: main_def main_run_def)

lemma fs_main: "fs (main pf w) = fs (snd (main_body pf w))"
  by (cases "main_body pf w")
     (auto simp: main_def main_run_def print_def split: option.splits)

lemma write_report_fs': "write_report pf ps w = (r, buf, w') \<Longrightarrow> fs w' = fs w"
  using write_report_fs [of pf ps w] by simp

lemma write_summary_fs': "write_summary pf ps w = (r, buf, w') \<Longrightarrow> fs w' = fs w"
  using write_summary_fs [of pf ps w] by simp

lemma print_fs: "print line w = Inr w' \<Longrightarrow> fs w' = fs w"
  by (auto simp: print_def split: if_splits)

lemma main_body_keeps_output_dir:
  assumes "getenv_key pf = Some api_key" and "api_key \<noteq> []" and "models_list pf = None"
    and "fs w output_dir = None" and "makedirs_error pf = None"
  shows "fs (snd (main_body pf w)) output_dir = Some Directory"
  using assms report_path_neq_output_dir [of pf] summary_path_neq_output_dir [of pf]
  by (auto simp: main_body_def check_environment_ok Let_def
      split: sum.splits option.splits prod.splits
      dest!: write_report_fs' write_summary_fs' print_fs)

subsection \<open>Evaluations of the batch on the concrete platforms\<close>

lemma demo_ok:
  "getenv_key demo_platform = Some (str ''sk-demo'')" "str ''sk-demo'' \<noteq> []"
  "models_list demo_platform = None" "makedirs_error demo_platform = None"
  "listdir demo_platform images_dir = Inr demo_listing"
  "open_error demo_platform q = None"
  by (simp_all add: demo_platform_def str_def images_dir_def)

lemma demo_collect:
  "collect demo_platform demo_listing
     = [str ''images/c.bmp'', str ''images/a.jpg'', str ''images/b.png'']"
  by (simp add: demo_listing_def is_image_name_def image_extensions_def endswith_def
      demo_platform_def ascii_lower_def path_join_def images_dir_def startswith_def str_def)

lemma demo_collect_rev:
  "collect demo_platform (rev demo_listing)
     = [str ''images/b.png'', str ''images/a.jpg'', str ''images/c.bmp'']"
  by (simp add: demo_listing_def is_image_name_def image_extensions_def endswith_def
      demo_platform_def ascii_lower_def path_join_def images_dir_def startswith_def str_def)

lemma demo_sorted:
  "sort [str ''images/c.bmp'', str ''images/a.jpg'', str ''images/b.png'']
     = [str ''images/a.jpg'', str ''images/b.png'', str ''images/c.bmp'']"
  "sort [str ''images/b.png'', str ''images/a.jpg'', str ''images/c.bmp'']
     = [str ''images/a.jpg'', str ''images/b.png'', str ''images/c.bmp'']"
  by (simp_all add: str_def)

lemma demo_extracted:
  "extracted demo_platform n (str ''images/a.jpg'') = sample_text"
  "extracted demo_platform n (str ''images/b.png'')
     = error_text (str ''images/b.png'') AttributeError_strip"
  "extracted demo_platform n (str ''images/c.bmp'')
     = error_text (str ''images/c.bmp'') (Exception (str ''cannot identify image file''))"
  using demo_extract_a [of n] demo_extract_b [of n] demo_extract_c [of n]
  by (simp_all add: extract_is_extracted)

lemma sample_summary_entry:
  "summary_entry 1 (str ''images/a.jpg'') sample_text =
     str ''1. a.jpg'' @ [10]
     @ str ''   Words: 3, Characters: 13'' @ [10]
     @ str ''   Preview: H17 247'' @ [176] @ str ''F 16P...'' @ [10, 10]"
  unfolding summary_entry_def summary_entry_writes_def Let_def sample_counts str_of_nat_small
    basename_demo
  by (simp add: sample_text_def str_def)

lemma empty_ok:
  "getenv_key empty_platform = Some (str ''sk-demo'')"
  "models_list empty_platform = None" "makedirs_error empty_platform = None"
  "listdir empty_platform images_dir = Inr [str ''notes.txt'', str ''README.md'']"
  by (simp_all add: empty_platform_def demo_platform_def)

lemma empty_no_image:
  "\<forall>f \<in> set [str ''notes.txt'', str ''README.md'']. \<not> is_image_name empty_platform f"
  by (simp add: is_image_name_def image_extensions_def endswith_def empty_platform_def
      demo_platform_def ascii_lower_def str_def)

lemma basename_path_join_images:
  assumes "47 \<notin> set name"
  shows "basename (path_join images_dir name) = name"
proof -
  have "\<not> startswith name [47]"
    using assms by (cases name) (auto simp: startswith_def)
  then have j: "path_join images_dir name = images_dir @ [47] @ name"
    by (simp add: path_join_images)
  have "takeWhile (\<lambda>c. c \<noteq> 47) (rev name @ 47 # rev images_dir) = rev name"
    using assms by (auto simp: takeWhile_tail)
  then show ?thesis by (simp add: basename_def j)
qed

lemma demo_encodable_stamps:
  "encodable (run_stamp demo_platform)" "encodable (report_date demo_platform)"
  "encodable (summary_date demo_platform)"
  by (simp_all add: demo_platform_def encodable_str)

lemma demo_encodable_texts:
  "\<forall>p \<in> set (collect demo_platform demo_listing). encodable p"
  "\<forall>k. \<forall>p \<in> set (collect demo_platform demo_listing). encodable (extracted demo_platform k p)"
  by (simp_all add: demo_collect demo_extracted error_text_def
      AttributeError_strip_def sample_text_def encodable_append encodable_Cons encodable_Nil
      surrogate_def encodable_str)

lemma demo_counts:
  "length (split_ws (error_text (str ''images/b.png'') AttributeError_strip)) = 9"
  "length (error_text (str ''images/b.png'') AttributeError_strip) = 73"
  "length (split_ws (error_text (str ''images/c.bmp'')
     (Exception (str ''cannot identify image file'')))) = 7"
  "length (error_text (str ''images/c.bmp'')
     (Exception (str ''cannot identify image file''))) = 57"
  by (simp_all add: error_text_def AttributeError_strip_def str_def isspace_def split_ws.simps)

lemma str_of_nat_more:
  "str_of_nat 2 = str ''2''" "str_of_nat 7 = str ''7''" "str_of_nat 9 = str ''9''"
  "str_of_nat 57 = str ''57''" "str_of_nat 73 = str ''73''"
  by (simp_all add: str_of_nat.simps str_def)

lemma script_missing_credential:
  "getenv_key pf = None \<Longrightarrow>
   script pf w = Traceback (Exception (str
     ''The api_key client option must be set either by passing api_key to the client or by setting the OPENAI_API_KEY environment variable'')) w"
  by (simp add: script_def OpenAI_def)

lemma script_empty_credential:
  "getenv_key pf = Some [] \<Longrightarrow>
   script pf w = Exited (w\<lparr>console := console w @
        [str ''An error occurred: OPENAI_API_KEY not found in environment variables. Please check your .env file.'']\<rparr>)"
  using main_missing_credential [of pf w] by (simp add: script_def OpenAI_def)

text \<open>
  A run on the platform whose one image has a name with a lone surrogate: the
  \<open>print\<close> of the first loop raises, the report holds its header only, no summary is
  written and no extraction is made.
\<close>

lemma surrogate_collect:
  "collect surrogate_platform [[56553] @ str ''.jpg''] = [str ''images/'' @ [56553] @ str ''.jpg'']"
  by (simp add: is_image_name_def image_extensions_def endswith_def surrogate_platform_def
      demo_platform_def ascii_lower_def path_join_def images_dir_def startswith_def str_def)

lemma surrogate_progress:
  "print (progress_notice 1 1 (str ''images/'' @ [56553] @ str ''.jpg'')) w
     = Inl (Exception ([39] @ str ''utf-8'' @ [39] @ str '' codec can'' @ [39]
         @ str ''t encode character '' @ [39, 92] @ str ''udce9'' @ [39]
         @ str '' in position 16: surrogates not allowed''))"
  by (simp add: print_def progress_notice_def basename_def encodable_def surrogate_def
      UnicodeEncodeError_def Let_def hex4_def hex_digit_def str_of_nat.simps str_def)

lemma surrogate_name_truncates_report:
  "fst (main_body surrogate_platform demo_world)
     = Some (Exception ([39] @ str ''utf-8'' @ [39] @ str '' codec can'' @ [39]
         @ str ''t encode character '' @ [39, 92] @ str ''udce9'' @ [39]
         @ str '' in position 16: surrogates not allowed''))"
  "fs (main surrogate_platform demo_world) (report_path surrogate_platform)
     = Some (File (report_header surrogate_platform 1))"
  "fs (main surrogate_platform demo_world) (summary_path surrogate_platform) = None"
  "extractions (main surrogate_platform demo_world) = 0"
proof -
  have k: "getenv_key surrogate_platform = Some (str ''sk-demo'')"
    "models_list surrogate_platform = None" "makedirs_error surrogate_platform = None"
    "listdir surrogate_platform images_dir = Inr [[56553] @ str ''.jpg'']"
    "open_error surrogate_platform q = None" for q
    by (simp_all add: surrogate_platform_def demo_platform_def)
  have st: "encodable (run_stamp surrogate_platform)" "encodable (report_date surrogate_platform)"
    by (simp_all add: surrogate_platform_def demo_platform_def encodable_str)
  have e1: "encodable (str ''Processing '' @ str_of_nat n @ str '' images...'')" for n
    by (simp add: encodable_append encodable_str encodable_str_of_nat)
  have e2: "encodable (str ''Output will be saved to: '' @ report_path surrogate_platform)"
    using st(1) by (simp add: encodable_append encodable_str encodable_report_path)
  have wr: "write_report surrogate_platform [str ''images/'' @ [56553] @ str ''.jpg''] w
     = (Some (Exception ([39] @ str ''utf-8'' @ [39] @ str '' codec can'' @ [39]
         @ str ''t encode character '' @ [39, 92] @ str ''udce9'' @ [39]
         @ str '' in position 16: surrogates not allowed'')),
        report_header surrogate_platform 1, w)" for w
    using surrogate_progress [of w]
    by (simp add: write_report_def
        write_each_ok [OF encodable_report_header_writes [OF st(2)]] report_header_def
        del: append.simps)
  have mb: "main_body surrogate_platform demo_world =
     (Some (Exception ([39] @ str ''utf-8'' @ [39] @ str '' codec can'' @ [39]
         @ str ''t encode character '' @ [39, 92] @ str ''udce9'' @ [39]
         @ str '' in position 16: surrogates not allowed'')),
      demo_world\<lparr>fs := [output_dir \<mapsto> Directory,
                          report_path surrogate_platform
                            \<mapsto> File (report_header surrogate_platform 1)],
        console := [connected_notice, str ''Processing '' @ str_of_nat 1 @ str '' images...'',
                    str ''Output will be saved to: '' @ report_path surrogate_platform]\<rparr>)"
    using k(2-5) surrogate_collect
    by (simp add: main_body_def check_environment_ok [OF k(1) demo_ok(2)] Let_def
        print_ok e1 e2 wr demo_world_def del: append.simps)
  show "fst (main_body surrogate_platform demo_world)
     = Some (Exception ([39] @ str ''utf-8'' @ [39] @ str '' codec can'' @ [39]
         @ str ''t encode character '' @ [39, 92] @ str ''udce9'' @ [39]
         @ str '' in position 16: surrogates not allowed''))"
    by (simp only: mb fst_conv)
  show "fs (main surrogate_platform demo_world) (report_path surrogate_platform)
     = Some (File (report_header surrogate_platform 1))"
    unfolding fs_main mb by simp
  show "fs (main surrogate_platform demo_world) (summary_path surrogate_platform) = None"
    unfolding fs_main mb
    using report_path_neq_summary_path [of surrogate_platform]
      summary_path_neq_output_dir [of surrogate_platform]
    by (simp add: demo_world_def)
  show "extractions (main surrogate_platform demo_world) = 0"
    unfolding main_def main_run_def mb
    by (simp add: print_def demo_world_def split: if_splits)
qed

subsection \<open>The claims about the batch\<close>

text \<open>
  C6. With the credential unset the script does not reach \<open>main\<close>: constructing the
  client at the top of the module raises, and the process ends with a traceback. The
  console is as it was, so the notice of \<open>main\<close>'s handler is not printed, although
  \<open>check_environment\<close> would raise its own exception for the missing key if \<open>main\<close>
  were reached. No image is processed and nothing is written.
\<close>

theorem missing_credential_traceback:
  "getenv_key keyless_platform = None
   \<and> script keyless_platform demo_world
       = Traceback (Exception (str
           ''The api_key client option must be set either by passing api_key to the client or by setting the OPENAI_API_KEY environment variable''))
           demo_world
   \<and> console demo_world = []
   \<and> main_body keyless_platform demo_world = (Some missing_key, demo_world)"
proof -
  have h: "getenv_key keyless_platform = None" by (simp add: keyless_platform_def)
  have 1: "script keyless_platform demo_world
       = Traceback (Exception (str
           ''The api_key client option must be set either by passing api_key to the client or by setting the OPENAI_API_KEY environment variable''))
           demo_world"
    using h by (rule script_missing_credential)
  have 2: "console demo_world = []" by (simp add: demo_world_def)
  have 3: "main_body keyless_platform demo_world = (Some missing_key, demo_world)"
    using main_missing_credential [of keyless_platform demo_world] h by simp
  from h 1 2 3 show ?thesis by (intro conjI)
qed

text \<open>
  C5. When the environment check passes, the output directory exists or can be created,
  and the listing of the images directory holds no name with an image extension, the body
  of \<open>main\<close> is left without an exception: the run prints the notice that no image
  files were found (after the notice of the environment check) and no error notice, the
  report path and the summary path are as they were, no file is created, and no extraction
  is made.
\<close>

theorem no_images_terminates_normally:
  assumes "getenv_key pf = Some api_key" and "api_key \<noteq> []" and "models_list pf = None"
    and "fs w output_dir \<noteq> None \<or> makedirs_error pf = None"
    and "listdir pf images_dir = Inr names"
    and "\<forall>f \<in> set names. \<not> is_image_name pf f"
  shows "fst (main_body pf w) = None
     \<and> console (main pf w) = console w @ [connected_notice, no_images_notice]
     \<and> fs (main pf w) (report_path pf) = fs w (report_path pf)
     \<and> fs (main pf w) (summary_path pf) = fs w (summary_path pf)
     \<and> (\<forall>p c. fs (main pf w) p = Some (File c) \<longrightarrow> fs w p = Some (File c))
     \<and> extractions (main pf w) = extractions w"
proof -
  have c: "collect pf names = []" using assms(6) by (rule collect_none)
  note b = main_body_no_images [OF assms(1-5) c]
  have m: "main pf w = w\<lparr>fs := (if fs w output_dir = None
                                 then (fs w)(output_dir \<mapsto> Directory) else fs w),
             console := console w @ [connected_notice, no_images_notice]\<rparr>"
    by (simp add: main_def main_run_def b)
  have 1: "fst (main_body pf w) = None" by (simp add: b)
  have 2: "console (main pf w) = console w @ [connected_notice, no_images_notice]"
    by (simp add: m)
  have 3: "fs (main pf w) (report_path pf) = fs w (report_path pf)"
    using report_path_neq_output_dir [of pf] by (simp add: m)
  have 4: "fs (main pf w) (summary_path pf) = fs w (summary_path pf)"
    using summary_path_neq_output_dir [of pf] by (simp add: m)
  have 5: "\<forall>p c. fs (main pf w) p = Some (File c) \<longrightarrow> fs w p = Some (File c)"
    by (simp add: m)
  have 6: "extractions (main pf w) = extractions w" by (simp add: m)
  from 1 2 3 4 5 6 show ?thesis by (intro conjI)
qed

theorem no_images_terminates_normally_witness:
  "listdir empty_platform images_dir = Inr [str ''notes.txt'', str ''README.md'']
   \<and> \<not> is_image_name empty_platform (str ''notes.txt'')
   \<and> \<not> is_image_name empty_platform (str ''README.md'')
   \<and> fst (main_body empty_platform demo_world) = None
   \<and> console (main empty_platform demo_world)
       = [connected_notice, str ''No image files found in the images directory.'']
   \<and> fs (main empty_platform demo_world) (report_path empty_platform) = None
   \<and> fs (main empty_platform demo_world) (summary_path empty_platform) = None
   \<and> extractions (main empty_platform demo_world) = 0"
proof -
  have d: "fs demo_world output_dir \<noteq> None \<or> makedirs_error empty_platform = None"
    by (simp add: empty_ok)
  note t = no_images_terminates_normally
    [OF empty_ok(1) demo_ok(2) empty_ok(2) d empty_ok(4) empty_no_image]
  have n: "\<not> is_image_name empty_platform (str ''notes.txt'')"
    "\<not> is_image_name empty_platform (str ''README.md'')"
    using empty_no_image by simp_all
  from t n empty_ok(4) show ?thesis
    by (simp add: demo_world_def no_images_notice_def)
qed

text \<open>
  C10. When the environment check passes and the output directory is absent and can be
  created, the run leaves it created whatever the listing of the images directory then
  gives, since it is created before the listing is read. When the listing holds no image
  name, and also when the listing fails, the file system after the run is the one before
  it with the output directory added and nothing else changed.
\<close>

theorem output_dir_created_before_listing:
  assumes "getenv_key pf = Some api_key" and "api_key \<noteq> []" and "models_list pf = None"
    and "fs w output_dir = None" and "makedirs_error pf = None"
  shows "fs (main pf w) output_dir = Some Directory
     \<and> (\<forall>names. listdir pf images_dir = Inr names \<and> collect pf names = []
          \<longrightarrow> fs (main pf w) = (fs w)(output_dir \<mapsto> Directory))
     \<and> (\<forall>e. listdir pf images_dir = Inl e
          \<longrightarrow> fs (main pf w) = (fs w)(output_dir \<mapsto> Directory))"
proof (intro conjI allI impI)
  show "fs (main pf w) output_dir = Some Directory"
    unfolding fs_main using assms by (rule main_body_keeps_output_dir)
next
  fix names
  assume a: "listdir pf images_dir = Inr names \<and> collect pf names = []"
  have d: "fs w output_dir \<noteq> None \<or> makedirs_error pf = None" using assms(5) ..
  from a have "main_body pf w =
     (None, w\<lparr>fs := (if fs w output_dir = None then (fs w)(output_dir \<mapsto> Directory) else fs w),
             console := console w @ [connected_notice, no_images_notice]\<rparr>)"
    using main_body_no_images [OF assms(1-3) d] by blast
  then show "fs (main pf w) = (fs w)(output_dir \<mapsto> Directory)"
    unfolding fs_main using assms(4) by simp
next
  fix e
  assume "listdir pf images_dir = Inl e"
  then show "fs (main pf w) = (fs w)(output_dir \<mapsto> Directory)"
    unfolding fs_main using assms
    by (simp add: main_body_def check_environment_ok print_def)
qed

theorem output_dir_created_before_listing_witness:
  "fs demo_world output_dir = None
   \<and> listdir empty_platform images_dir = Inr [str ''notes.txt'', str ''README.md'']
   \<and> collect empty_platform [str ''notes.txt'', str ''README.md''] = []
   \<and> fs (main empty_platform demo_world) output_dir = Some Directory
   \<and> fs (main empty_platform demo_world) = [output_dir \<mapsto> Directory]"
proof -
  have h: "fs demo_world output_dir = None" by (simp add: demo_world_def)
  have c: "collect empty_platform [str ''notes.txt'', str ''README.md''] = []"
    using empty_no_image by (rule collect_none)
  note t = output_dir_created_before_listing
    [OF empty_ok(1) demo_ok(2) empty_ok(2) h empty_ok(3)]
  from t have 1: "fs (main empty_platform demo_world) output_dir = Some Directory" by blast
  from t empty_ok(4) c
  have "fs (main empty_platform demo_world) = (fs demo_world)(output_dir \<mapsto> Directory)"
    by blast
  then have 2: "fs (main empty_platform demo_world) = [output_dir \<mapsto> Directory]"
    by (simp add: demo_world_def)
  from h empty_ok(4) c 1 2 show ?thesis by (intro conjI)
qed

text \<open>
  C7. The image files of the batch are the names of the listing of the images directory,
  in the order of the listing, joined to that directory, for which the lower-cased name
  ends with one of \<open>.jpg\<close>, \<open>.jpeg\<close>, \<open>.png\<close>, \<open>.bmp\<close>, \<open>.tiff\<close>, \<open>.tif\<close>;
  the path of a name is among them if and only if the name is in the listing and its
  lower-cased form ends with one of these extensions. The listing is the one call of
  \<open>listdir\<close> on the images directory in \<open>main_body\<close>; nothing below that
  directory is read.
\<close>

theorem image_files_selected_by_extension:
  "collect pf names =
     map (path_join images_dir)
       (filter (\<lambda>file. \<exists>ext \<in> {str ''.jpg'', str ''.jpeg'', str ''.png'', str ''.bmp'',
                                  str ''.tiff'', str ''.tif''}.
                          \<exists>stem. str_lower pf file = stem @ ext) names)
   \<and> (\<forall>file. path_join images_dir file \<in> set (collect pf names) \<longleftrightarrow>
         file \<in> set names
         \<and> (\<exists>ext \<in> {str ''.jpg'', str ''.jpeg'', str ''.png'', str ''.bmp'',
                      str ''.tiff'', str ''.tif''}.
              \<exists>stem. str_lower pf file = stem @ ext))"
proof (intro conjI allI)
  show "collect pf names =
     map (path_join images_dir)
       (filter (\<lambda>file. \<exists>ext \<in> {str ''.jpg'', str ''.jpeg'', str ''.png'', str ''.bmp'',
                                  str ''.tiff'', str ''.tif''}.
                          \<exists>stem. str_lower pf file = stem @ ext) names)"
    unfolding collect_eq by (rule arg_cong [where f = "map (path_join images_dir)"])
      (rule filter_cong, simp_all add: is_image_name_iff)
next
  fix f
  have "path_join images_dir f \<in> set (collect pf names) \<longleftrightarrow>
          f \<in> set names \<and> is_image_name pf f"
    unfolding collect_eq using path_join_images_inj by auto
  then show "path_join images_dir f \<in> set (collect pf names) \<longleftrightarrow>
         f \<in> set names
         \<and> (\<exists>ext \<in> {str ''.jpg'', str ''.jpeg'', str ''.png'', str ''.bmp'',
                      str ''.tiff'', str ''.tif''}.
              \<exists>stem. str_lower pf f = stem @ ext)"
    by (simp only: is_image_name_iff)
qed

theorem image_files_selected_by_extension_witness:
  "collect demo_platform [str ''IMG_0001.JPG'', str ''scan.Tiff'', str ''a.jpg.bak'', str ''jpg'',
                          str ''notes.txt'']
     = [str ''images/IMG_0001.JPG'', str ''images/scan.Tiff'']
   \<and> path_join images_dir (str ''IMG_0001.JPG'')
       \<in> set (collect demo_platform [str ''IMG_0001.JPG'', str ''scan.Tiff'', str ''a.jpg.bak'',
                                        str ''jpg'', str ''notes.txt''])
   \<and> str_lower demo_platform (str ''IMG_0001.JPG'') = str ''img_0001'' @ str ''.jpg''
   \<and> path_join images_dir (str ''a.jpg.bak'')
       \<notin> set (collect demo_platform [str ''IMG_0001.JPG'', str ''scan.Tiff'', str ''a.jpg.bak'',
                                        str ''jpg'', str ''notes.txt''])"
proof -
  let ?names = "[str ''IMG_0001.JPG'', str ''scan.Tiff'', str ''a.jpg.bak'', str ''jpg'',
                 str ''notes.txt'']"
  note t = image_files_selected_by_extension [of demo_platform ?names]
  have l: "str_lower demo_platform (str ''IMG_0001.JPG'') = str ''img_0001'' @ str ''.jpg''"
    by (simp add: demo_platform_def ascii_lower_def str_def)
  have c: "collect demo_platform ?names = [str ''images/IMG_0001.JPG'', str ''images/scan.Tiff'']"
    by (simp add: is_image_name_def image_extensions_def endswith_def
      demo_platform_def ascii_lower_def path_join_def images_dir_def startswith_def str_def)
  have 1: "path_join images_dir (str ''IMG_0001.JPG'') \<in> set (collect demo_platform ?names)"
  proof -
    have "str ''IMG_0001.JPG'' \<in> set ?names" by simp
    moreover have "\<exists>ext \<in> {str ''.jpg'', str ''.jpeg'', str ''.png'', str ''.bmp'',
                      str ''.tiff'', str ''.tif''}.
              \<exists>stem. str_lower demo_platform (str ''IMG_0001.JPG'') = stem @ ext"
      using l by blast
    ultimately show ?thesis using t by blast
  qed
  have 2: "path_join images_dir (str ''a.jpg.bak'') \<notin> set (collect demo_platform ?names)"
    unfolding c by (simp add: path_join_def images_dir_def startswith_def endswith_def str_def)
  from c 1 l 2 show ?thesis by (intro conjI)
qed

text \<open>
  C3. Take a run that finds images, can open both output files, and in which every text
  it prints or writes can be encoded (the paths and the extracted texts hold no lone
  surrogate). The paths are sorted once, lexicographically, and no exception leaves the
  body of \<open>main\<close>. The report is its header followed by one block for each path in that
  sorted order: the line \<open>IMAGE\<close> with the number of the path, counted from 1, and its
  base name, a rule of 60 dashes, the extracted text, an empty line and a rule of 80 equals
  signs. The summary is its header followed by one entry for each path in the same order.
  The text of the block number \<open>k + 1\<close> is what the extraction numbered \<open>k\<close> of the run
  returns, and the text of the entry number \<open>k + 1\<close> of the summary is what the
  extraction numbered \<open>n + k\<close> returns, \<open>n\<close> being the number of images. The base name
  of the path of a listed name without a separator is that name. A listing with the same
  names in another order gives the same sorted paths.
\<close>

theorem report_and_summary_in_sorted_order:
  assumes "getenv_key pf = Some api_key" and "api_key \<noteq> []" and "models_list pf = None"
    and "fs w output_dir \<noteq> None \<or> makedirs_error pf = None"
    and "listdir pf images_dir = Inr names" and "collect pf names \<noteq> []"
    and "open_error pf (report_path pf) = None" and "open_error pf (summary_path pf) = None"
    and "encodable (run_stamp pf)" and "encodable (report_date pf)"
    and "encodable (summary_date pf)"
    and "\<forall>p \<in> set (collect pf names). encodable p"
    and "\<forall>k. \<forall>p \<in> set (collect pf names). encodable (extracted pf k p)"
  shows "let paths = sort (collect pf names); n = length paths in
     sorted paths \<and> mset paths = mset (collect pf names)
     \<and> (\<forall>names'. mset names' = mset names \<longrightarrow> sort (collect pf names') = paths)
     \<and> fst (main_body pf w) = None
     \<and> fs (main pf w) (report_path pf) =
         Some (File (report_header pf n
           @ concat (map (\<lambda>(k, p).
                 str ''IMAGE '' @ str_of_nat (Suc k) @ str '': '' @ basename p @ [10]
                 @ replicate 60 45 @ [10]
                 @ extracted pf (extractions w + k) p
                 @ [10, 10] @ replicate 80 61 @ [10, 10])
               (enumerate 0 paths))))
     \<and> fs (main pf w) (summary_path pf) =
         Some (File (summary_header pf n
           @ concat (map (\<lambda>(k, p).
                 let t = extracted pf (extractions w + n + k) p in
                 str_of_nat (Suc k) @ str ''. '' @ basename p @ [10]
                 @ str ''   Words: '' @ str_of_nat (length (split_ws t))
                 @ str '', Characters: '' @ str_of_nat (length t) @ [10]
                 @ str ''   Preview: '' @ take 100 t @ str ''...'' @ [10, 10])
               (enumerate 0 paths))))
     \<and> (\<forall>file \<in> set names. 47 \<notin> set file
           \<longrightarrow> basename (path_join images_dir file) = file)"
proof -
  note c = main_body_complete [OF assms]
  have m: "main pf w = snd (main_body pf w)" using c(1) by (rule main_when_complete)
  have r: "fs (main pf w) (report_path pf) =
         Some (File (report_header pf (length (collect pf names))
           @ concat (map (\<lambda>(k, p). report_block (Suc k) p (extracted pf (extractions w + k) p))
                       (enumerate 0 (sort (collect pf names))))))"
    unfolding m c(2) using report_path_neq_summary_path [of pf] by simp
  have s: "fs (main pf w) (summary_path pf) =
         Some (File (summary_header pf (length (collect pf names))
           @ concat (map (\<lambda>(k, p). summary_entry (Suc k) p
                         (extracted pf (extractions w + length (collect pf names) + k) p))
                       (enumerate 0 (sort (collect pf names))))))"
    unfolding m c(2) by simp
  have p: "sort (collect pf names') = sort (collect pf names)"
    if "mset names' = mset names" for names'
    using mset_collect [OF that, of pf] by (intro properties_for_sort) simp_all
  show ?thesis
    unfolding Let_def
  proof (intro conjI allI impI ballI)
    show "sorted (sort (collect pf names))" by simp
    show "mset (sort (collect pf names)) = mset (collect pf names)" by simp
    show "fst (main_body pf w) = None" by (rule c(1))
    show "fs (main pf w) (report_path pf) =
         Some (File (report_header pf (length (sort (collect pf names)))
           @ concat (map (\<lambda>(k, p).
                 str ''IMAGE '' @ str_of_nat (Suc k) @ str '': '' @ basename p @ [10]
                 @ replicate 60 45 @ [10]
                 @ extracted pf (extractions w + k) p
                 @ [10, 10] @ replicate 80 61 @ [10, 10])
               (enumerate 0 (sort (collect pf names))))))"
      using r by (simp add: report_block_def report_block_writes_def rule_line_def)
    show "fs (main pf w) (summary_path pf) =
         Some (File (summary_header pf (length (sort (collect pf names)))
           @ concat (map (\<lambda>(k, p).
                 str_of_nat (Suc k) @ str ''. '' @ basename p @ [10]
                 @ str ''   Words: ''
                 @ str_of_nat (length (split_ws
                     (extracted pf (extractions w + length (sort (collect pf names)) + k) p)))
                 @ str '', Characters: ''
                 @ str_of_nat (length
                     (extracted pf (extractions w + length (sort (collect pf names)) + k) p))
                 @ [10]
                 @ str ''   Preview: ''
                 @ take 100
                     (extracted pf (extractions w + length (sort (collect pf names)) + k) p)
                 @ str ''...'' @ [10, 10])
               (enumerate 0 (sort (collect pf names))))))"
      using s by (simp add: summary_entry_def summary_entry_writes_def Let_def)
  next
    fix names'
    assume "mset names' = mset names"
    then show "sort (collect pf names') = sort (collect pf names)" by (rule p)
  next
    fix f :: ustr
    assume "f \<in> set names" and "47 \<notin> set f"
    then show "basename (path_join images_dir f) = f" by (intro basename_path_join_images)
  qed
qed

theorem report_and_summary_in_sorted_order_witness:
  "listdir demo_platform images_dir = Inr demo_listing
   \<and> demo_listing = [str ''c.bmp'', str ''notes.txt'', str ''a.jpg'', str ''b.png'']
   \<and> sort (collect demo_platform demo_listing)
       = [str ''images/a.jpg'', str ''images/b.png'', str ''images/c.bmp'']
   \<and> sort (collect demo_platform (rev demo_listing))
       = sort (collect demo_platform demo_listing)
   \<and> fst (main_body demo_platform demo_world) = None
   \<and> fs (main demo_platform demo_world) (report_path demo_platform) =
       Some (File (
           replicate 80 61 @ [10]
         @ str ''TEXT EXTRACTION FROM AUTOCLAVE IMAGES (GPT-4 Vision)'' @ [10]
         @ replicate 80 61 @ [10]
         @ str ''Extraction Date: 2024-01-01 12:00:00'' @ [10]
         @ str ''Total Images Processed: 3'' @ [10]
         @ replicate 80 61 @ [10, 10]
         @ str ''IMAGE 1: a.jpg'' @ [10] @ replicate 60 45 @ [10]
         @ str ''H17 247'' @ [176] @ str ''F 16P''
         @ [10, 10] @ replicate 80 61 @ [10, 10]
         @ str ''IMAGE 2: b.png'' @ [10] @ replicate 60 45 @ [10]
         @ str ''Error processing images/b.png: '' @ [39] @ str ''NoneType'' @ [39]
         @ str '' object has no attribute '' @ [39] @ str ''strip'' @ [39]
         @ [10, 10] @ replicate 80 61 @ [10, 10]
         @ str ''IMAGE 3: c.bmp'' @ [10] @ replicate 60 45 @ [10]
         @ str ''Error processing images/c.bmp: cannot identify image file''
         @ [10, 10] @ replicate 80 61 @ [10, 10]))
   \<and> fs (main demo_platform demo_world) (summary_path demo_platform) =
       Some (File (
           str ''EXTRACTION SUMMARY'' @ [10]
         @ replicate 50 61 @ [10]
         @ str ''Date: 2024-01-01 12:00:09'' @ [10]
         @ str ''Images processed: 3'' @ [10, 10]
         @ str ''1. a.jpg'' @ [10]
         @ str ''   Words: 3, Characters: 13'' @ [10]
         @ str ''   Preview: H17 247'' @ [176] @ str ''F 16P...'' @ [10, 10]
         @ str ''2. b.png'' @ [10]
         @ str ''   Words: 9, Characters: 73'' @ [10]
         @ str ''   Preview: Error processing images/b.png: '' @ [39] @ str ''NoneType'' @ [39]
         @ str '' object has no attribute '' @ [39] @ str ''strip'' @ [39] @ str ''...''
         @ [10, 10]
         @ str ''3. c.bmp'' @ [10]
         @ str ''   Words: 7, Characters: 57'' @ [10]
         @ str ''   Preview: Error processing images/c.bmp: cannot identify image file...''
         @ [10, 10]))"
proof -
  have ne: "collect demo_platform demo_listing \<noteq> []" by (simp add: demo_collect)
  have d: "fs demo_world output_dir \<noteq> None \<or> makedirs_error demo_platform = None"
    by (simp add: demo_ok)
  have s: "sort (collect demo_platform demo_listing)
       = [str ''images/a.jpg'', str ''images/b.png'', str ''images/c.bmp'']"
    by (simp only: demo_collect demo_sorted)
  note t = report_and_summary_in_sorted_order
    [OF demo_ok(1) demo_ok(2) demo_ok(3) d demo_ok(5) ne demo_ok(6) demo_ok(6) demo_encodable_stamps
       demo_encodable_texts,
     unfolded Let_def s]
  have e: "enumerate 0 [a, b, c] = [(0, a), (Suc 0, b), (Suc (Suc 0), c)]" for a b c :: ustr
    by simp
  have n: "extractions demo_world = 0" by (simp add: demo_world_def)
  have c: "fst (main_body demo_platform demo_world) = None" using t by blast
  have r0: "fs (main demo_platform demo_world) (report_path demo_platform) =
         Some (File (report_header demo_platform 3
           @ str ''IMAGE '' @ str_of_nat 1 @ str '': '' @ basename (str ''images/a.jpg'') @ [10]
             @ replicate 60 45 @ [10] @ sample_text @ [10, 10] @ replicate 80 61 @ [10, 10]
           @ str ''IMAGE '' @ str_of_nat 2 @ str '': '' @ basename (str ''images/b.png'') @ [10]
             @ replicate 60 45 @ [10]
             @ error_text (str ''images/b.png'') AttributeError_strip
             @ [10, 10] @ replicate 80 61 @ [10, 10]
           @ str ''IMAGE '' @ str_of_nat 3 @ str '': '' @ basename (str ''images/c.bmp'') @ [10]
             @ replicate 60 45 @ [10]
             @ error_text (str ''images/c.bmp'') (Exception (str ''cannot identify image file''))
             @ [10, 10] @ replicate 80 61 @ [10, 10]))"
    using t by (simp add: e n demo_extracted numeral_3_eq_3 numeral_2_eq_2)
  have r: "fs (main demo_platform demo_world) (report_path demo_platform) =
       Some (File (
           replicate 80 61 @ [10]
         @ str ''TEXT EXTRACTION FROM AUTOCLAVE IMAGES (GPT-4 Vision)'' @ [10]
         @ replicate 80 61 @ [10]
         @ str ''Extraction Date: 2024-01-01 12:00:00'' @ [10]
         @ str ''Total Images Processed: 3'' @ [10]
         @ replicate 80 61 @ [10, 10]
         @ str ''IMAGE 1: a.jpg'' @ [10] @ replicate 60 45 @ [10]
         @ str ''H17 247'' @ [176] @ str ''F 16P''
         @ [10, 10] @ replicate 80 61 @ [10, 10]
         @ str ''IMAGE 2: b.png'' @ [10] @ replicate 60 45 @ [10]
         @ str ''Error processing images/b.png: '' @ [39] @ str ''NoneType'' @ [39]
         @ str '' object has no attribute '' @ [39] @ str ''strip'' @ [39]
         @ [10, 10] @ replicate 80 61 @ [10, 10]
         @ str ''IMAGE 3: c.bmp'' @ [10] @ replicate 60 45 @ [10]
         @ str ''Error processing images/c.bmp: cannot identify image file''
         @ [10, 10] @ replicate 80 61 @ [10, 10]))"
    unfolding r0
    by (simp add: report_header_def report_header_writes_def rule_line_def basename_def
        str_of_nat.simps error_text_def AttributeError_strip_def sample_text_def
        demo_platform_def str_def)
  have u0: "fs (main demo_platform demo_world) (summary_path demo_platform) =
         Some (File (summary_header demo_platform 3
           @ str_of_nat 1 @ str ''. '' @ basename (str ''images/a.jpg'') @ [10]
             @ str ''   Words: '' @ str_of_nat (length (split_ws sample_text))
             @ str '', Characters: '' @ str_of_nat (length sample_text) @ [10]
             @ str ''   Preview: '' @ take 100 sample_text @ str ''...'' @ [10, 10]
           @ str_of_nat 2 @ str ''. '' @ basename (str ''images/b.png'') @ [10]
             @ str ''   Words: '' @ str_of_nat (length (split_ws
                 (error_text (str ''images/b.png'') AttributeError_strip)))
             @ str '', Characters: '' @ str_of_nat (length
                 (error_text (str ''images/b.png'') AttributeError_strip)) @ [10]
             @ str ''   Preview: ''
             @ take 100 (error_text (str ''images/b.png'') AttributeError_strip)
             @ str ''...'' @ [10, 10]
           @ str_of_nat 3 @ str ''. '' @ basename (str ''images/c.bmp'') @ [10]
             @ str ''   Words: '' @ str_of_nat (length (split_ws
                 (error_text (str ''images/c.bmp'')
                    (Exception (str ''cannot identify image file'')))))
             @ str '', Characters: '' @ str_of_nat (length
                 (error_text (str ''images/c.bmp'')
                    (Exception (str ''cannot identify image file'')))) @ [10]
             @ str ''   Preview: ''
             @ take 100 (error_text (str ''images/c.bmp'')
                    (Exception (str ''cannot identify image file'')))
             @ str ''...'' @ [10, 10]))"
    using t by (simp add: e n demo_extracted numeral_3_eq_3 numeral_2_eq_2)
  have u: "fs (main demo_platform demo_world) (summary_path demo_platform) =
       Some (File (
           str ''EXTRACTION SUMMARY'' @ [10]
         @ replicate 50 61 @ [10]
         @ str ''Date: 2024-01-01 12:00:09'' @ [10]
         @ str ''Images processed: 3'' @ [10, 10]
         @ str ''1. a.jpg'' @ [10]
         @ str ''   Words: 3, Characters: 13'' @ [10]
         @ str ''   Preview: H17 247'' @ [176] @ str ''F 16P...'' @ [10, 10]
         @ str ''2. b.png'' @ [10]
         @ str ''   Words: 9, Characters: 73'' @ [10]
         @ str ''   Preview: Error processing images/b.png: '' @ [39] @ str ''NoneType'' @ [39]
         @ str '' object has no attribute '' @ [39] @ str ''strip'' @ [39] @ str ''...''
         @ [10, 10]
         @ str ''3. c.bmp'' @ [10]
         @ str ''   Words: 7, Characters: 57'' @ [10]
         @ str ''   Preview: Error processing images/c.bmp: cannot identify image file...''
         @ [10, 10]))"
    unfolding u0 demo_counts sample_counts str_of_nat_small str_of_nat_more
    by (simp add: summary_header_def summary_header_writes_def rule_line_def basename_def
        str_of_nat.simps error_text_def AttributeError_strip_def sample_text_def
        demo_platform_def str_def)
  have p: "sort (collect demo_platform (rev demo_listing))
       = sort (collect demo_platform demo_listing)"
    by (simp only: demo_collect demo_collect_rev demo_sorted)
  from demo_ok(5) demo_listing_def s p c r u show ?thesis by (intro conjI)
qed

text \<open>
  C4, as amended. The entry of the summary for a text gives as word count the number of
  whitespace-separated tokens of the text (which is the length of \<open>split()\<close>) and as
  character count the length of the text, counted in code points. For the text
  \<open>H17 247\<degree>F 16P\<close> the word count is 3 and the character count is 13.
\<close>

theorem summary_entry_counts:
  "summary_entry i p t =
     str_of_nat i @ str ''. '' @ basename p @ [10]
     @ str ''   Words: '' @ str_of_nat (token_starts True t)
     @ str '', Characters: '' @ str_of_nat (length t) @ [10]
     @ str ''   Preview: '' @ take 100 t @ str ''...'' @ [10, 10]
   \<and> token_starts True t = length (split_ws t)
   \<and> summary_entry i p sample_text =
     str_of_nat i @ str ''. '' @ basename p @ [10]
     @ str ''   Words: 3, Characters: 13'' @ [10]
     @ str ''   Preview: '' @ sample_text @ str ''...'' @ [10, 10]"
proof (intro conjI)
  show "summary_entry i p t =
     str_of_nat i @ str ''. '' @ basename p @ [10]
     @ str ''   Words: '' @ str_of_nat (token_starts True t)
     @ str '', Characters: '' @ str_of_nat (length t) @ [10]
     @ str ''   Preview: '' @ take 100 t @ str ''...'' @ [10, 10]"
    by (simp add: summary_entry_def summary_entry_writes_def Let_def length_split_ws)
  show "token_starts True t = length (split_ws t)" by (simp add: length_split_ws)
  show "summary_entry i p sample_text =
     str_of_nat i @ str ''. '' @ basename p @ [10]
     @ str ''   Words: 3, Characters: 13'' @ [10]
     @ str ''   Preview: '' @ sample_text @ str ''...'' @ [10, 10]"
    unfolding summary_entry_def summary_entry_writes_def Let_def sample_counts str_of_nat_small
    by (simp add: str_def)
qed

theorem summary_entry_counts_witness:
  "summary_entry 1 (str ''images/a.jpg'') sample_text =
     str ''1. a.jpg'' @ [10]
     @ str ''   Words: 3, Characters: 13'' @ [10]
     @ str ''   Preview: H17 247'' @ [176] @ str ''F 16P...'' @ [10, 10]
   \<and> token_starts True sample_text = 3"
proof -
  note t = summary_entry_counts [of 1 "str ''images/a.jpg''" sample_text]
  have a: "token_starts True sample_text = length (split_ws sample_text)"
    using t by blast
  have b: "summary_entry 1 (str ''images/a.jpg'') sample_text =
     str_of_nat 1 @ str ''. '' @ basename (str ''images/a.jpg'') @ [10]
     @ str ''   Words: 3, Characters: 13'' @ [10]
     @ str ''   Preview: '' @ sample_text @ str ''...'' @ [10, 10]"
    using t by blast
  have c: "str_of_nat 1 @ str ''. '' @ basename (str ''images/a.jpg'') @ [10]
     @ str ''   Words: 3, Characters: 13'' @ [10]
     @ str ''   Preview: '' @ sample_text @ str ''...'' @ [10, 10]
     = str ''1. a.jpg'' @ [10]
     @ str ''   Words: 3, Characters: 13'' @ [10]
     @ str ''   Preview: H17 247'' @ [176] @ str ''F 16P...'' @ [10, 10]"
    unfolding str_of_nat_small basename_demo by (simp add: sample_text_def str_def)
  from a b c show ?thesis by (simp only: sample_counts)
qed

text \<open>
  The claim C4 as it was stated gives 14 as the character count of that text. The text
  has 13 code points (the degree sign is one code point, and two bytes in UTF-8), and the
  entry written for it says 13.
\<close>

theorem summary_character_count_counterexample:
  "length (split_ws sample_text) = 3
   \<and> length sample_text = 13
   \<and> length sample_text \<noteq> 14
   \<and> summary_entry 1 (str ''images/a.jpg'') sample_text \<noteq>
     str ''1. a.jpg'' @ [10]
     @ str ''   Words: 3, Characters: 14'' @ [10]
     @ str ''   Preview: H17 247'' @ [176] @ str ''F 16P...'' @ [10, 10]"
proof -
  have "str ''1. a.jpg'' @ [10]
     @ str ''   Words: 3, Characters: 13'' @ [10]
     @ str ''   Preview: H17 247'' @ [176] @ str ''F 16P...'' @ [10, 10]
     \<noteq> str ''1. a.jpg'' @ [10]
     @ str ''   Words: 3, Characters: 14'' @ [10]
     @ str ''   Preview: H17 247'' @ [176] @ str ''F 16P...'' @ [10, 10]"
    by (simp add: str_def)
  then have "summary_entry 1 (str ''images/a.jpg'') sample_text \<noteq>
     str ''1. a.jpg'' @ [10]
     @ str ''   Words: 3, Characters: 14'' @ [10]
     @ str ''   Preview: H17 247'' @ [176] @ str ''F 16P...'' @ [10, 10]"
    unfolding sample_summary_entry .
  moreover have "length sample_text \<noteq> 14" by (simp add: sample_counts)
  ultimately show ?thesis using sample_counts(1,2) by (intro conjI)
qed

end
